theory Spec2Isabelle
  imports Main "HOL-Library.Sublist" "HOL-Library.AList"
begin

section \<open>Data model of the orchestration kernel\<close>

text \<open>
  The development embeds \<^verbatim>\<open>orchestrator/workflows/agent_saga.py\<close>: the saga context
  (\<^verbatim>\<open>SagaContext\<close>) and the event-sourced workflow (\<^verbatim>\<open>AgentWorkflow\<close>).

  Python values of type \<^verbatim>\<open>Any\<close> are JSON-like values; a \<^verbatim>\<open>dict[str, Any]\<close> is an
  association list in insertion order (Python dictionaries keep insertion order and
  have pairwise distinct keys): \<^verbatim>\<open>d.get(k)\<close> is \<open>map_of d k\<close>, \<^verbatim>\<open>d[k] = v\<close> is
  \<open>AList.update k v d\<close>, \<^verbatim>\<open>d.items()\<close> is the list itself, \<^verbatim>\<open>len(d)\<close> its length.
\<close>

datatype pyval =
    PNone
  | PBool bool
  | PInt int
  | PStr string
  | PList "pyval list"
  | PDict "(string \<times> pyval) list"

type_synonym pydict = "(string \<times> pyval) list"

text \<open>
  Exceptions deriving from \<^verbatim>\<open>Exception\<close>, each with the text that \<^verbatim>\<open>str(e)\<close> gives for it.
  \<^verbatim>\<open>ActivityError\<close> is what the durable host raises once an activity has exhausted its
  retries; \<^verbatim>\<open>KeyError\<close> is raised by a subscript \<^verbatim>\<open>d["k"]\<close> on a missing key;
  \<^verbatim>\<open>TypeError\<close> by a call with an argument that the callee does not take;
  \<open>OtherException\<close> is any other exception a collaborator call may raise.
  \<open>str_exn\<close> is Python's \<^verbatim>\<open>str(e)\<close>.
\<close>

datatype exn =
    ActivityError string
  | KeyError string
  | TypeError string
  | OtherException string

fun str_exn :: "exn \<Rightarrow> string" where
  "str_exn (ActivityError m) = m"
| "str_exn (KeyError m) = m"
| "str_exn (TypeError m) = m"
| "str_exn (OtherException m) = m"

text \<open>
  The text of a \<^verbatim>\<open>KeyError\<close> is the \<^verbatim>\<open>repr\<close> of the missing key. The workflow subscripts
  with the literal keys \<^verbatim>\<open>tool\<close>, \<^verbatim>\<open>template_id\<close>, \<^verbatim>\<open>plan_id\<close> and \<^verbatim>\<open>steps\<close> only, and
  the \<^verbatim>\<open>repr\<close> of such a key is the key between single quotes. \<open>quoted\<close> is used for
  these literal names and for the name of a keyword argument, nowhere else.
\<close>

definition quoted :: "string \<Rightarrow> string" where
  "quoted k = [CHR 0x27] @ k @ [CHR 0x27]"

text \<open>
  A plan step is a \<^verbatim>\<open>dict[str, Any]\<close> read only through the keys below; each field is
  the entry under that key, \<open>None\<close> when the key is absent (\<^verbatim>\<open>step.get("id")\<close>,
  \<^verbatim>\<open>step.get("name")\<close>, \<^verbatim>\<open>step["tool"]\<close>, \<^verbatim>\<open>step.get("input")\<close>,
  \<^verbatim>\<open>step.get("compensation")\<close>, \<^verbatim>\<open>step.get("compensation_input")\<close>).
\<close>

record plan_step =
  step_key_id :: "string option"
  step_key_name :: "string option"
  step_key_tool :: "string option"
  step_key_input :: "pydict option"
  step_key_compensation :: "string option"
  step_key_compensation_input :: "pydict option"

text \<open>
  The (non-empty) dictionary answered by the cache-lookup and plan-generation
  collaborators, read through the keys \<^verbatim>\<open>"plan_id"\<close>, \<^verbatim>\<open>"steps"\<close> and
  \<^verbatim>\<open>"template_id"\<close>; \<open>None\<close> when the key is absent.
\<close>

record plan_dict =
  plan_key_plan_id :: "string option"
  plan_key_steps :: "plan_step list option"
  plan_key_template_id :: "string option"

text \<open>The dataclass \<^verbatim>\<open>CompensationStep\<close>.\<close>

record compensation_step =
  activity_name :: string
  input :: pydict
  step_id :: string

text \<open>
  The dataclass \<^verbatim>\<open>SagaContext\<close>. Its field \<^verbatim>\<open>workflow_instance\<close> is the back reference
  through which the saga reaches \<^verbatim>\<open>AgentWorkflow._execute_activity\<close>; that method reads
  no workflow field, so the saga operations below take the host instead.
\<close>

record saga_context =
  compensation_stack :: "compensation_step list"
  rollback_executed :: bool

text \<open>
  One entry of the list returned by \<^verbatim>\<open>rollback\<close>: the dictionary
  \<^verbatim>\<open>{"step_id", "success": True, "result"}\<close> or \<^verbatim>\<open>{"step_id", "success": False, "error"}\<close>.
\<close>

record compensation_result =
  cr_step_id :: string
  cr_success :: bool
  cr_result :: "pydict option"
  cr_error :: "string option"

text \<open>The dictionaries returned by \<^verbatim>\<open>_handle_success\<close> and \<^verbatim>\<open>_handle_failure\<close>.\<close>

record success_result =
  sr_status :: string
  sr_plan_id :: string
  sr_steps_executed :: nat
  sr_results :: "(string \<times> pydict) list"

record failure_result =
  fr_status :: string
  fr_plan_id :: string
  fr_failed_step_id :: string
  fr_error :: string
  fr_compensation_executed :: bool
  fr_compensation_results :: "compensation_result list"

text \<open>
  Modelled from the spec: the event classes of \<^verbatim>\<open>models.events\<close> are imported by the
  workflow but are not part of the sources. The variants and their fields are those of
  the spec's data model, in the order in which the workflow passes them as keyword
  arguments; \<^verbatim>\<open>duration_seconds\<close> is always the constant zero in the workflow.
\<close>

datatype event =
    GoalReceived string string string "pydict option"
  | PlanGenerated string string "plan_step list" bool "string option"
  | ToolCallRequested string string pydict string "string option"
  | ToolResultReceived string string string bool "pydict option" "string option"
  | WorkflowCompleted string string nat nat success_result
  | WorkflowFailed string string string string bool "compensation_result list"

text \<open>
  One call through \<^verbatim>\<open>workflow.execute_activity\<close>: the activity name, its arguments, the
  start-to-close timeout in seconds and the retry policy (intervals in seconds).
\<close>

record retry_policy =
  maximum_attempts :: nat
  initial_interval :: "nat option"
  backoff_coefficient :: "nat option"
  maximum_interval :: "nat option"

record activity_call =
  ac_name :: string
  ac_args :: "pyval list"
  ac_start_to_close_timeout :: nat
  ac_retry_policy :: retry_policy

text \<open>
  The durable host and the collaborators behind it. Each collaborator is a function of
  the state of the outside world and of the call; it answers with a result or raises,
  and changes the world. \<open>history\<close> is the sequence of activity calls dispatched so far.
\<close>

record 'w host =
  cache_lookup :: "'w \<Rightarrow> activity_call \<Rightarrow> (exn + plan_dict option) \<times> 'w"
  plan_generation :: "'w \<Rightarrow> activity_call \<Rightarrow> (exn + plan_dict) \<times> 'w"
  tool_invocation :: "'w \<Rightarrow> activity_call \<Rightarrow> (exn + pydict) \<times> 'w"

record 'w hstate =
  world :: 'w
  history :: "activity_call list"

text \<open>
  The state of an \<^verbatim>\<open>AgentWorkflow\<close> instance. \<open>threshold_warnings\<close> records the warnings
  that \<^verbatim>\<open>_append_event\<close> logs at the continue-as-new threshold (the event-log length of
  each), which is all the workflow does there. The field \<^verbatim>\<open>saga\<close> is \<^verbatim>\<open>None\<close> only
  between the constructor and the first statement of \<^verbatim>\<open>run\<close>, which assigns a new
  \<^verbatim>\<open>SagaContext\<close>; no method reads it before.
\<close>

record workflow =
  events :: "event list"
  saga :: saga_context
  goal :: string
  user_id :: string
  plan_id :: string
  plan_steps :: "plan_step list"
  step_results :: "(string \<times> pydict) list"
  failed_step_id :: string
  MAX_HISTORY_SIZE :: nat
  threshold_warnings :: "nat list"

definition new_saga :: saga_context where
  "new_saga = \<lparr>compensation_stack = [], rollback_executed = False\<rparr>"

text \<open>\<^verbatim>\<open>AgentWorkflow.__init__\<close>.\<close>

definition init :: workflow where
  "init = \<lparr>events = [], saga = new_saga, goal = [], user_id = [], plan_id = [],
            plan_steps = [], step_results = [], failed_step_id = [],
            MAX_HISTORY_SIZE = 1000, threshold_warnings = []\<rparr>"

section \<open>Strings\<close>

text \<open>
  \<^verbatim>\<open>s.replace(old, "")\<close>: every non-overlapping occurrence of \<open>old\<close>, found from the
  left, is removed (\<open>old\<close> is never empty in the workflow; with an empty \<open>old\<close> and an
  empty replacement Python returns \<open>s\<close>).
\<close>

function remove_all :: "string \<Rightarrow> string \<Rightarrow> string" where
  "remove_all old [] = []"
| "remove_all old (c # cs) =
     (if old \<noteq> [] \<and> prefix old (c # cs)
      then remove_all old (drop (length old) (c # cs))
      else c # remove_all old cs)"
  by pat_completeness auto
termination
  by (relation "measure (\<lambda>(old, s). length s)") auto

text \<open>The decimal numeral of a natural number, as an f-string prints it.\<close>

definition digit :: "nat \<Rightarrow> char" where
  "digit d = ''0123456789'' ! d"

function str_nat :: "nat \<Rightarrow> string" where
  "str_nat n = (if n < 10 then [digit n] else str_nat (n div 10) @ [digit (n mod 10)])"
  by pat_completeness auto
termination
  by (relation "measure id") auto

section \<open>The saga context\<close>

text \<open>\<^verbatim>\<open>workflow.execute_activity\<close>: dispatch one call to a collaborator.\<close>

definition workflow_execute_activity ::
  "('w \<Rightarrow> activity_call \<Rightarrow> 'r \<times> 'w) \<Rightarrow> activity_call \<Rightarrow> 'w hstate \<Rightarrow> 'r \<times> 'w hstate" where
  "workflow_execute_activity f c hs =
     (case f (world hs) c of
        (r, w') \<Rightarrow> (r, \<lparr>world = w', history = history hs @ [c]\<rparr>))"

text \<open>
  The call that \<^verbatim>\<open>AgentWorkflow._execute_activity\<close> builds (its \<^verbatim>\<open>step_id\<close> parameter
  is not used by the method).
\<close>

definition activity_request :: "string \<Rightarrow> pydict \<Rightarrow> bool \<Rightarrow> activity_call" where
  "activity_request name activity_input is_compensation =
     \<lparr>ac_name = name, ac_args = [PDict activity_input],
      ac_start_to_close_timeout = (if is_compensation then 15 else 30),
      ac_retry_policy =
        \<lparr>maximum_attempts = (if \<not> is_compensation then 3 else 2),
         initial_interval = Some 1, backoff_coefficient = Some 2,
         maximum_interval = Some 10\<rparr>\<rparr>"

definition execute_activity ::
  "'w host \<Rightarrow> string \<Rightarrow> pydict \<Rightarrow> string \<Rightarrow> bool \<Rightarrow> 'w hstate \<Rightarrow> (exn + pydict) \<times> 'w hstate" where
  "execute_activity h name activity_input sid is_compensation hs =
     workflow_execute_activity (tool_invocation h)
       (activity_request name activity_input is_compensation) hs"

text \<open>\<^verbatim>\<open>SagaContext._inject_result_values\<close>.\<close>

definition inject_value :: "pyval \<Rightarrow> pydict \<Rightarrow> pyval" where
  "inject_value v result =
     (case v of
        PStr s \<Rightarrow>
          (if prefix ''{result.'' s
           then (let field_name = remove_all ''}'' (remove_all ''{result.'' s)
                 in (case map_of result field_name of Some x \<Rightarrow> x | None \<Rightarrow> v))
           else v)
      | _ \<Rightarrow> v)"

definition inject_result_values :: "pydict \<Rightarrow> pydict \<Rightarrow> pydict" where
  "inject_result_values compensation_input result =
     fold (\<lambda>(key, v) injected. AList.update key (inject_value v result) injected)
       compensation_input []"

text \<open>
  \<^verbatim>\<open>SagaContext.execute_with_compensation\<close>. An exception of the activity leaves the
  method before the registration. \<^verbatim>\<open>if compensation_activity:\<close> holds for a string that
  is not empty; \<^verbatim>\<open>compensation_input or {}\<close> is the empty dictionary for \<^verbatim>\<open>None\<close>.
\<close>

definition execute_with_compensation ::
  "'w host \<Rightarrow> string \<Rightarrow> pydict \<Rightarrow> string option \<Rightarrow> pydict option \<Rightarrow> string \<Rightarrow>
   saga_context \<Rightarrow> 'w hstate \<Rightarrow> (exn + pydict) \<times> saga_context \<times> 'w hstate" where
  "execute_with_compensation h name activity_input compensation_activity compensation_input
       sid sg hs =
     (case execute_activity h name activity_input sid False hs of
        (Inl e, hs') \<Rightarrow> (Inl e, sg, hs')
      | (Inr result, hs') \<Rightarrow>
          (case compensation_activity of
             None \<Rightarrow> (Inr result, sg, hs')
           | Some cname \<Rightarrow>
               (if cname = [] then (Inr result, sg, hs')
                else (let comp_input = (case compensation_input of Some ci \<Rightarrow> ci | None \<Rightarrow> []);
                          injected_input = inject_result_values comp_input result;
                          compensation = \<lparr>activity_name = cname, input = injected_input,
                                          step_id = sid\<rparr>
                      in (Inr result,
                          sg\<lparr>compensation_stack := compensation_stack sg @ [compensation]\<rparr>,
                          hs')))))"

text \<open>
  \<^verbatim>\<open>SagaContext.rollback\<close>. The loop runs over \<^verbatim>\<open>reversed(self.compensation_stack)\<close>;
  every exception of a compensation is caught and recorded.
\<close>

fun rollback_loop ::
  "'w host \<Rightarrow> compensation_step list \<Rightarrow> compensation_result list \<Rightarrow> 'w hstate \<Rightarrow>
   compensation_result list \<times> 'w hstate" where
  "rollback_loop h [] results hs = (results, hs)"
| "rollback_loop h (compensation # rest) results hs =
     (case execute_activity h (activity_name compensation) (input compensation)
             (step_id compensation) True hs of
        (Inr result, hs') \<Rightarrow>
          rollback_loop h rest
            (results @ [\<lparr>cr_step_id = step_id compensation, cr_success = True,
                         cr_result = Some result, cr_error = None\<rparr>]) hs'
      | (Inl e, hs') \<Rightarrow>
          rollback_loop h rest
            (results @ [\<lparr>cr_step_id = step_id compensation, cr_success = False,
                         cr_result = None, cr_error = Some (str_exn e)\<rparr>]) hs')"

definition rollback ::
  "'w host \<Rightarrow> saga_context \<Rightarrow> 'w hstate \<Rightarrow> compensation_result list \<times> saga_context \<times> 'w hstate" where
  "rollback h sg hs =
     (if rollback_executed sg then ([], sg, hs)
      else (let sg' = sg\<lparr>rollback_executed := True\<rparr>
            in if compensation_stack sg' = [] then ([], sg', hs)
               else (case rollback_loop h (rev (compensation_stack sg')) [] hs of
                       (results, hs') \<Rightarrow> (results, sg', hs'))))"

section \<open>The workflow\<close>

text \<open>
  \<^verbatim>\<open>AgentWorkflow._append_event\<close>, in its three parts: the append, the update of the
  derived state by the type of the event, and the threshold check.
\<close>

fun update_derived_state :: "workflow \<Rightarrow> event \<Rightarrow> workflow" where
  "update_derived_state s (GoalReceived cid g u ctx) = s\<lparr>goal := g, user_id := u\<rparr>"
| "update_derived_state s (PlanGenerated cid pid steps hit tid) =
     s\<lparr>plan_id := pid, plan_steps := steps\<rparr>"
| "update_derived_state s e = s"

definition check_threshold :: "workflow \<Rightarrow> workflow" where
  "check_threshold s =
     (if length (events s) \<ge> MAX_HISTORY_SIZE s
      then s\<lparr>threshold_warnings := threshold_warnings s @ [length (events s)]\<rparr>
      else s)"

definition append_event :: "workflow \<Rightarrow> event \<Rightarrow> workflow" where
  "append_event s e =
     check_threshold (update_derived_state (s\<lparr>events := events s @ [e]\<rparr>) e)"

text \<open>
  \<^verbatim>\<open>AgentWorkflow._check_semantic_cache\<close>: only \<^verbatim>\<open>ActivityError\<close> is caught. The answer
  of the collaborator is \<open>None\<close> when it is falsy (\<^verbatim>\<open>None\<close> or an empty dictionary), which
  is what \<^verbatim>\<open>result if result else None\<close> makes of it.
\<close>

definition cache_request :: "string \<Rightarrow> activity_call" where
  "cache_request g =
     \<lparr>ac_name = ''check_semantic_cache'', ac_args = [PStr g],
      ac_start_to_close_timeout = 10,
      ac_retry_policy = \<lparr>maximum_attempts = 2, initial_interval = None,
                         backoff_coefficient = None, maximum_interval = None\<rparr>\<rparr>"

definition check_semantic_cache ::
  "'w host \<Rightarrow> string \<Rightarrow> 'w hstate \<Rightarrow> (exn + plan_dict option) \<times> 'w hstate" where
  "check_semantic_cache h g hs =
     (case workflow_execute_activity (cache_lookup h) (cache_request g) hs of
        (Inr result, hs') \<Rightarrow> (Inr result, hs')
      | (Inl (ActivityError m), hs') \<Rightarrow> (Inr None, hs')
      | (Inl e, hs') \<Rightarrow> (Inl e, hs'))"

text \<open>\<^verbatim>\<open>AgentWorkflow._generate_plan_with_llm\<close>.\<close>

definition plan_request :: "string \<Rightarrow> pydict \<Rightarrow> activity_call" where
  "plan_request g ctx =
     \<lparr>ac_name = ''generate_plan_with_llm'', ac_args = [PStr g, PDict ctx],
      ac_start_to_close_timeout = 30,
      ac_retry_policy = \<lparr>maximum_attempts = 3, initial_interval = Some 1,
                         backoff_coefficient = Some 2, maximum_interval = None\<rparr>\<rparr>"

definition generate_plan_with_llm ::
  "'w host \<Rightarrow> string \<Rightarrow> pydict \<Rightarrow> 'w hstate \<Rightarrow> (exn + plan_dict) \<times> 'w hstate" where
  "generate_plan_with_llm h g ctx hs =
     workflow_execute_activity (plan_generation h) (plan_request g ctx) hs"

text \<open>
  \<^verbatim>\<open>AgentWorkflow._execute_plan\<close>: \<open>execute_step\<close> is the body of the loop over
  \<^verbatim>\<open>enumerate(self.plan_steps)\<close> for the step at index \<open>idx\<close>, \<open>execute_plan_loop\<close> the
  loop; an exception of the body ends the loop. \<^verbatim>\<open>step["tool"]\<close> raises \<^verbatim>\<open>KeyError\<close> while the
  \<^verbatim>\<open>ToolCallRequested\<close> event is built, before anything is appended. Only
  \<^verbatim>\<open>ActivityError\<close> is caught around the execution of the step.
\<close>

definition step_id_of :: "nat \<Rightarrow> plan_step \<Rightarrow> string" where
  "step_id_of idx step =
     (case step_key_id step of Some i \<Rightarrow> i | None \<Rightarrow> ''step_'' @ str_nat idx)"

definition step_input_of :: "plan_step \<Rightarrow> pydict" where
  "step_input_of step = (case step_key_input step of Some i \<Rightarrow> i | None \<Rightarrow> [])"

definition execute_step ::
  "'w host \<Rightarrow> string \<Rightarrow> nat \<Rightarrow> plan_step \<Rightarrow> workflow \<Rightarrow> 'w hstate \<Rightarrow>
   (exn + unit) \<times> workflow \<times> 'w hstate" where
  "execute_step h wid idx step s hs =
     (let sid = step_id_of idx step in
      case step_key_tool step of
        None \<Rightarrow> (Inl (KeyError (quoted ''tool'')), s, hs)
      | Some tool \<Rightarrow>
          (let s1 = append_event s
                      (ToolCallRequested wid tool (step_input_of step) sid
                         (step_key_compensation step))
           in case execute_with_compensation h tool (step_input_of step)
                     (step_key_compensation step) (step_key_compensation_input step)
                     sid (saga s1) hs of
                (Inr result, sg, hs1) \<Rightarrow>
                  (let s2 = append_event (s1\<lparr>saga := sg\<rparr>)
                              (ToolResultReceived wid tool sid True (Some result) None)
                   in (Inr (),
                       s2\<lparr>step_results := AList.update sid result (step_results s2)\<rparr>,
                       hs1))
              | (Inl (ActivityError m), sg, hs1) \<Rightarrow>
                  (let s2 = append_event (s1\<lparr>saga := sg\<rparr>)
                              (ToolResultReceived wid tool sid False None (Some m))
                   in (Inl (ActivityError m), s2\<lparr>failed_step_id := sid\<rparr>, hs1))
              | (Inl e, sg, hs1) \<Rightarrow> (Inl e, s1\<lparr>saga := sg\<rparr>, hs1)))"

fun execute_plan_loop ::
  "'w host \<Rightarrow> string \<Rightarrow> nat \<Rightarrow> plan_step list \<Rightarrow> workflow \<Rightarrow> 'w hstate \<Rightarrow>
   (exn + unit) \<times> workflow \<times> 'w hstate" where
  "execute_plan_loop h wid idx [] s hs = (Inr (), s, hs)"
| "execute_plan_loop h wid idx (step # rest) s hs =
     (case execute_step h wid idx step s hs of
        (Inl e, s', hs') \<Rightarrow> (Inl e, s', hs')
      | (Inr u, s', hs') \<Rightarrow> execute_plan_loop h wid (Suc idx) rest s' hs')"

definition execute_plan ::
  "'w host \<Rightarrow> string \<Rightarrow> workflow \<Rightarrow> 'w hstate \<Rightarrow> (exn + unit) \<times> workflow \<times> 'w hstate" where
  "execute_plan h wid s hs = execute_plan_loop h wid 0 (plan_steps s) s hs"

text \<open>\<^verbatim>\<open>AgentWorkflow._handle_success\<close> and \<^verbatim>\<open>AgentWorkflow._handle_failure\<close>.\<close>

definition handle_success :: "string \<Rightarrow> workflow \<Rightarrow> success_result \<times> workflow" where
  "handle_success wid s =
     (let result = \<lparr>sr_status = ''completed'', sr_plan_id = plan_id s,
                    sr_steps_executed = length (plan_steps s),
                    sr_results = step_results s\<rparr>
      in (result,
          append_event s (WorkflowCompleted wid (plan_id s) (length (plan_steps s)) 0 result)))"

definition handle_failure ::
  "'w host \<Rightarrow> string \<Rightarrow> string \<Rightarrow> workflow \<Rightarrow> 'w hstate \<Rightarrow>
   failure_result \<times> workflow \<times> 'w hstate" where
  "handle_failure h wid error_message s hs =
     (case rollback h (saga s) hs of
        (compensation_results, sg, hs') \<Rightarrow>
          (let s1 = s\<lparr>saga := sg\<rparr>;
               result = \<lparr>fr_status = ''failed'', fr_plan_id = plan_id s1,
                         fr_failed_step_id = failed_step_id s1, fr_error = error_message,
                         fr_compensation_executed = True,
                         fr_compensation_results = compensation_results\<rparr>
           in (result,
               append_event s1
                 (WorkflowFailed wid (plan_id s1) (failed_step_id s1) error_message True
                    compensation_results),
               hs')))"

text \<open>
  \<^verbatim>\<open>AgentWorkflow.run\<close>. \<open>run_try\<close> is the body of the \<^verbatim>\<open>try\<close> block; \<open>run\<close> assigns the
  new saga context, runs the block and, on an exception, handles the failure and then
  evaluates \<^verbatim>\<open>ApplicationError(f"Workflow failed: ...", non_retryable=True,
  details=workflow_result)\<close>. The constructor of \<^verbatim>\<open>temporalio.exceptions.ApplicationError\<close>
  is \<^verbatim>\<open>__init__(self, message, *details, type=None, non_retryable=False, ...)\<close>: the
  details are positional and there is no keyword parameter \<^verbatim>\<open>details\<close>. The call
  therefore raises \<^verbatim>\<open>TypeError\<close> before any \<^verbatim>\<open>ApplicationError\<close> exists, and that
  \<^verbatim>\<open>TypeError\<close> is the exception a failed run ends with; the failure result of
  \<^verbatim>\<open>_handle_failure\<close> is built, and recorded in the \<^verbatim>\<open>WorkflowFailed\<close> event, but is not
  carried to the caller. The text of the \<^verbatim>\<open>TypeError\<close> is the one that CPython 3.10 and
  later print; no statement below reads it.
\<close>

definition application_error_call :: exn where
  "application_error_call =
     TypeError (''ApplicationError.__init__() got an unexpected keyword argument ''
                @ quoted ''details'')"

definition run_try ::
  "'w host \<Rightarrow> string \<Rightarrow> string \<Rightarrow> string \<Rightarrow> pydict option \<Rightarrow> workflow \<Rightarrow> 'w hstate \<Rightarrow>
   (exn + success_result) \<times> workflow \<times> 'w hstate" where
  "run_try h wid g uid context s hs =
     (let s1 = append_event s (GoalReceived wid g uid context) in
      case check_semantic_cache h g hs of
        (Inl e, hs1) \<Rightarrow> (Inl e, s1, hs1)
      | (Inr cached_plan, hs1) \<Rightarrow>
          (case (case cached_plan of
                   Some cp \<Rightarrow>
                     (case plan_key_template_id cp of
                        None \<Rightarrow> (Inl (KeyError (quoted ''template_id'')), s1, hs1)
                      | Some template_id \<Rightarrow>
                          (case plan_key_plan_id cp of
                             None \<Rightarrow> (Inl (KeyError (quoted ''plan_id'')), s1, hs1)
                           | Some pid \<Rightarrow>
                               (case plan_key_steps cp of
                                  None \<Rightarrow> (Inl (KeyError (quoted ''steps'')), s1, hs1)
                                | Some steps \<Rightarrow>
                                    (Inr (), append_event s1
                                       (PlanGenerated wid pid steps True (Some template_id)),
                                     hs1))))
                 | None \<Rightarrow>
                     (case generate_plan_with_llm h g
                             (case context of Some c \<Rightarrow> c | None \<Rightarrow> []) hs1 of
                        (Inl e, hs2) \<Rightarrow> (Inl e, s1, hs2)
                      | (Inr plan, hs2) \<Rightarrow>
                          (case plan_key_plan_id plan of
                             None \<Rightarrow> (Inl (KeyError (quoted ''plan_id'')), s1, hs2)
                           | Some pid \<Rightarrow>
                               (case plan_key_steps plan of
                                  None \<Rightarrow> (Inl (KeyError (quoted ''steps'')), s1, hs2)
                                | Some steps \<Rightarrow>
                                    (Inr (), append_event s1
                                       (PlanGenerated wid pid steps False None),
                                     hs2))))) of
             (Inl e, s2, hs2) \<Rightarrow> (Inl e, s2, hs2)
           | (Inr u, s2, hs2) \<Rightarrow>
               (case execute_plan h wid s2 hs2 of
                  (Inl e, s3, hs3) \<Rightarrow> (Inl e, s3, hs3)
                | (Inr u', s3, hs3) \<Rightarrow>
                    (case handle_success wid s3 of
                       (workflow_result, s4) \<Rightarrow> (Inr workflow_result, s4, hs3)))))"

definition run ::
  "'w host \<Rightarrow> string \<Rightarrow> string \<Rightarrow> string \<Rightarrow> pydict option \<Rightarrow> workflow \<Rightarrow> 'w hstate \<Rightarrow>
   (exn + success_result) \<times> workflow \<times> 'w hstate" where
  "run h wid g uid context s hs =
     (case run_try h wid g uid context (s\<lparr>saga := new_saga\<rparr>) hs of
        (Inr workflow_result, s1, hs1) \<Rightarrow> (Inr workflow_result, s1, hs1)
      | (Inl e, s1, hs1) \<Rightarrow>
          (case handle_failure h wid (str_exn e) s1 hs1 of
             (workflow_result, s2, hs2) \<Rightarrow> (Inl application_error_call, s2, hs2)))"

text \<open>The call that \<^verbatim>\<open>rollback\<close> dispatches for one entry of the compensation stack.\<close>

definition compensation_request :: "compensation_step \<Rightarrow> activity_call" where
  "compensation_request c = activity_request (activity_name c) (input c) True"

text \<open>
  \<^verbatim>\<open>replay\<close>: the derived state obtained by folding the state update of
  \<^verbatim>\<open>_append_event\<close> over an event sequence, from the state of the constructor.
\<close>

definition replay :: "event list \<Rightarrow> workflow" where
  "replay es = foldl update_derived_state init es"

section \<open>A concrete run: booking a trip\<close>

text \<open>
  The scenario of the specification: the goal is to book a trip, the cache answers with
  a miss, and the plan books a flight, a hotel and a car, each step with a compensation
  that cancels the booking. The collaborator named \<open>failing\<close> raises an
  \<^verbatim>\<open>ActivityError\<close>; every other call succeeds.
\<close>

definition trip_step :: "string \<Rightarrow> string \<Rightarrow> plan_step" where
  "trip_step tool compensation =
     \<lparr>step_key_id = None, step_key_name = None, step_key_tool = Some tool,
      step_key_input = Some [(''destination'', PStr ''Paris'')],
      step_key_compensation = Some compensation,
      step_key_compensation_input = Some [(''booking_id'', PStr ''{result.booking_id}'')]\<rparr>"

definition trip_plan :: plan_dict where
  "trip_plan =
     \<lparr>plan_key_plan_id = Some ''plan-1'',
      plan_key_steps = Some [trip_step ''book_flight'' ''cancel_flight'',
                             trip_step ''book_hotel'' ''cancel_hotel'',
                             trip_step ''book_car'' ''cancel_car''],
      plan_key_template_id = None\<rparr>"

text \<open>A plan whose two steps carry the same identifier.\<close>

definition twin_plan :: plan_dict where
  "twin_plan =
     \<lparr>plan_key_plan_id = Some ''plan-2'',
      plan_key_steps =
        Some [(trip_step ''book_flight'' ''cancel_flight'')\<lparr>step_key_id := Some ''booking''\<rparr>,
              (trip_step ''book_hotel'' ''cancel_hotel'')\<lparr>step_key_id := Some ''booking''\<rparr>],
      plan_key_template_id = None\<rparr>"

definition trip_host :: "plan_dict \<Rightarrow> string \<Rightarrow> unit host" where
  "trip_host plan failing =
     \<lparr>cache_lookup = (\<lambda>w c.
        (if failing = ''check_semantic_cache'' then Inl (ActivityError ''cache down'')
         else Inr None, w)),
      plan_generation = (\<lambda>w c.
        (if failing = ''generate_plan_with_llm'' then Inl (ActivityError ''planner down'')
         else Inr plan, w)),
      tool_invocation = (\<lambda>w c.
        (if ac_name c = failing then Inl (ActivityError (''failed: '' @ ac_name c))
         else Inr [(''booking_id'', PStr (''BK-'' @ ac_name c))], w))\<rparr>"

definition trip_start :: "unit hstate" where
  "trip_start = \<lparr>world = (), history = []\<rparr>"

definition trip_run ::
  "plan_dict \<Rightarrow> string \<Rightarrow> (exn + success_result) \<times> workflow \<times> unit hstate" where
  "trip_run plan failing =
     run (trip_host plan failing) ''wf-1'' ''book Paris trip'' ''user-1'' None init trip_start"

definition trip_try ::
  "plan_dict \<Rightarrow> string \<Rightarrow> (exn + success_result) \<times> workflow \<times> unit hstate" where
  "trip_try plan failing =
     run_try (trip_host plan failing) ''wf-1'' ''book Paris trip'' ''user-1'' None
       (init\<lparr>saga := new_saga\<rparr>) trip_start"

text \<open>A saga context holding two registered compensations.\<close>

definition trip_saga :: saga_context where
  "trip_saga =
     \<lparr>compensation_stack =
        [\<lparr>activity_name = ''cancel_flight'', input = [(''booking_id'', PStr ''BK-1'')],
          step_id = ''step_0''\<rparr>,
         \<lparr>activity_name = ''cancel_hotel'', input = [(''booking_id'', PStr ''BK-2'')],
          step_id = ''step_1''\<rparr>],
      rollback_executed = False\<rparr>"

text \<open>The identifiers that the loop of \<^verbatim>\<open>_execute_plan\<close> gives to the steps of a plan.\<close>

definition step_ids :: "plan_step list \<Rightarrow> string list" where
  "step_ids steps = map (\<lambda>(idx, step). step_id_of idx step) (enumerate 0 steps)"

text \<open>A plan of \<open>n\<close> steps that book a flight each.\<close>

definition long_plan :: "nat \<Rightarrow> plan_dict" where
  "long_plan n =
     \<lparr>plan_key_plan_id = Some ''plan-3'',
      plan_key_steps = Some (replicate n (trip_step ''book_flight'' ''cancel_flight'')),
      plan_key_template_id = None\<rparr>"

text \<open>
  The threshold of the workflow is \<open>m\<close> and the threshold warning has been logged at
  each append that brought the event log to \<open>m\<close> events or more.
\<close>

definition warned :: "nat \<Rightarrow> workflow \<Rightarrow> bool" where
  "warned m s \<longleftrightarrow>
     MAX_HISTORY_SIZE s = m
     \<and> threshold_warnings s = filter (\<lambda>n. m \<le> n) [1..<Suc (length (events s))]"

text \<open>
  The outcomes that the tool collaborator gives to a sequence of calls dispatched one
  after the other, each call meeting the world that the one before it left, and the
  world after the last one.
\<close>

fun dispatch_all ::
  "'w host \<Rightarrow> activity_call list \<Rightarrow> 'w \<Rightarrow> (exn + pydict) list \<times> 'w" where
  "dispatch_all h [] w = ([], w)"
| "dispatch_all h (c # cs) w =
     (case tool_invocation h w c of
        (outcome, w') \<Rightarrow>
          (case dispatch_all h cs w' of (outcomes, w'') \<Rightarrow> (outcome # outcomes, w'')))"

text \<open>
  The entry of the rollback result for a compensation and the outcome of its call: the
  step identifier with the result of a success, or with the text of the exception.
\<close>

definition compensation_entry :: "compensation_step \<Rightarrow> exn + pydict \<Rightarrow> compensation_result" where
  "compensation_entry c outcome =
     (case outcome of
        Inr result \<Rightarrow> \<lparr>cr_step_id = step_id c, cr_success = True,
                        cr_result = Some result, cr_error = None\<rparr>
      | Inl e \<Rightarrow> \<lparr>cr_step_id = step_id c, cr_success = False,
                   cr_result = None, cr_error = Some (str_exn e)\<rparr>)"

section \<open>Activity dispatch and the saga context\<close>

lemma execute_activity_history:
  "execute_activity h name inp sid ic hs = (r, hs') \<Longrightarrow>
   history hs' = history hs @ [activity_request name inp ic]"
  by (auto simp: execute_activity_def workflow_execute_activity_def split: prod.splits)

lemma rollback_loop_step_ids:
  "rollback_loop h cs rs hs = (rs', hs') \<Longrightarrow>
   map cr_step_id rs' = map cr_step_id rs @ map step_id cs"
proof (induction cs arbitrary: rs hs)
  case Nil
  then show ?case by simp
next
  case (Cons c cs)
  then show ?case
    by (auto split: prod.splits sum.splits)
qed

lemma rollback_loop_history:
  "rollback_loop h cs rs hs = (rs', hs') \<Longrightarrow>
   history hs' = history hs @ map compensation_request cs"
proof (induction cs arbitrary: rs hs)
  case Nil
  then show ?case by simp
next
  case (Cons c cs)
  then show ?case
    by (auto simp: compensation_request_def split: prod.splits sum.splits
             dest!: execute_activity_history)
qed

lemma rollback_first:
  assumes "\<not> rollback_executed sg" and "rollback h sg hs = (rs, sg', hs')"
  shows "map cr_step_id rs = rev (map step_id (compensation_stack sg))"
    and "history hs' = history hs @ map compensation_request (rev (compensation_stack sg))"
    and "sg' = sg\<lparr>rollback_executed := True\<rparr>"
  using assms
  by (auto simp: rollback_def Let_def rev_map split: if_splits prod.splits
           dest: rollback_loop_step_ids rollback_loop_history)

lemma rollback_again:
  "rollback_executed sg \<Longrightarrow> rollback h sg hs = ([], sg, hs)"
  by (simp add: rollback_def)

lemma rollback_flag_stack:
  "rollback h sg hs = (rs, sg', hs') \<Longrightarrow>
   rollback_executed sg' \<and> compensation_stack sg' = compensation_stack sg"
  by (auto simp: rollback_def Let_def split: if_splits prod.splits)

lemma execute_with_compensation_flag:
  "execute_with_compensation h n i ca ci sid sg hs = (r, sg', hs') \<Longrightarrow>
   rollback_executed sg' = rollback_executed sg"
  by (auto simp: execute_with_compensation_def Let_def
           split: prod.splits sum.splits option.splits if_splits)

section \<open>Appending events\<close>

lemma append_event_saga: "saga (append_event s e) = saga s"
  by (cases e) (simp_all add: append_event_def check_threshold_def)

lemma append_event_events: "events (append_event s e) = events s @ [e]"
  by (cases e) (simp_all add: append_event_def check_threshold_def)

lemma append_event_step_results: "step_results (append_event s e) = step_results s"
  by (cases e) (simp_all add: append_event_def check_threshold_def)

lemma append_event_failed_step_id: "failed_step_id (append_event s e) = failed_step_id s"
  by (cases e) (simp_all add: append_event_def check_threshold_def)

lemma append_event_MAX: "MAX_HISTORY_SIZE (append_event s e) = MAX_HISTORY_SIZE s"
  by (cases e) (simp_all add: append_event_def check_threshold_def)

section \<open>The saga flag along a run\<close>

lemma execute_step_flag:
  "execute_step h wid idx step s hs = (r, s', hs') \<Longrightarrow>
   rollback_executed (saga s') = rollback_executed (saga s)"
  by (auto simp: execute_step_def Let_def append_event_saga
           split: option.splits prod.splits sum.splits exn.splits
           dest: execute_with_compensation_flag)

lemma execute_plan_loop_flag:
  "execute_plan_loop h wid idx steps s hs = (r, s', hs') \<Longrightarrow>
   rollback_executed (saga s') = rollback_executed (saga s)"
proof (induction steps arbitrary: idx s hs)
  case Nil
  then show ?case by simp
next
  case (Cons step steps)
  then show ?case
    by (auto split: prod.splits sum.splits dest: execute_step_flag)
qed

lemma run_try_flag:
  "run_try h wid g uid ctx s hs = (r, s', hs') \<Longrightarrow>
   rollback_executed (saga s') = rollback_executed (saga s)"
  by (auto simp: run_try_def Let_def append_event_saga execute_plan_def handle_success_def
           split: option.splits prod.splits sum.splits
           dest: execute_plan_loop_flag)

section \<open>Rollback and the collaborator's outcomes\<close>

text \<open>
  \<^verbatim>\<open>rollback\<close> on a saga context that has not been rolled back yet: the result list pairs
  each compensation, from the top of the stack down, with the outcome that the
  collaborator gave to its call.
\<close>

lemma execute_activity_outcome:
  "execute_activity h name inp sid ic hs
     = (fst (tool_invocation h (world hs) (activity_request name inp ic)),
        \<lparr>world = snd (tool_invocation h (world hs) (activity_request name inp ic)),
         history = history hs @ [activity_request name inp ic]\<rparr>)"
  by (simp add: execute_activity_def workflow_execute_activity_def split: prod.split)

lemma rollback_loop_outcomes:
  "rollback_loop h cs rs hs
     = (rs @ map2 compensation_entry cs
               (fst (dispatch_all h (map compensation_request cs) (world hs))),
        \<lparr>world = snd (dispatch_all h (map compensation_request cs) (world hs)),
         history = history hs @ map compensation_request cs\<rparr>)"
proof (induction cs arbitrary: rs hs)
  case Nil
  then show ?case by simp
next
  case (Cons c cs)
  show ?case
    by (cases "fst (tool_invocation h (world hs) (compensation_request c))")
       (auto simp: Cons.IH execute_activity_outcome compensation_request_def [symmetric]
          compensation_entry_def split: prod.split)
qed

lemma rollback_outcomes:
  assumes "\<not> rollback_executed sg"
  shows "rollback h sg hs
     = (map2 compensation_entry (rev (compensation_stack sg))
          (fst (dispatch_all h (map compensation_request (rev (compensation_stack sg)))
                  (world hs))),
        sg\<lparr>rollback_executed := True\<rparr>,
        \<lparr>world = snd (dispatch_all h (map compensation_request (rev (compensation_stack sg)))
                       (world hs)),
         history = history hs @ map compensation_request (rev (compensation_stack sg))\<rparr>)"
  using assms by (simp add: rollback_def Let_def rollback_loop_outcomes)

lemma dispatch_all_length:
  "length (fst (dispatch_all h cs w)) = length cs"
proof (induction cs arbitrary: w)
  case Nil
  then show ?case by simp
next
  case (Cons c cs)
  from Cons [of "snd (tool_invocation h w c)"] show ?case
    by (auto split: prod.splits)
qed

text \<open>
  A failed run: the \<^verbatim>\<open>try\<close> block ends with an exception, in the workflow state \<open>s1\<close> and
  the host state \<open>hs1\<close>; the handler calls \<^verbatim>\<open>_handle_failure\<close> from there, and the state
  it leaves is the state the run ends in.
\<close>

lemma failed_run:
  assumes "run_try h wid g uid ctx (s\<lparr>saga := new_saga\<rparr>) hs = (Inl e, s1, hs1)"
    and "run h wid g uid ctx s hs = (out, s2, hs2)"
  shows "\<exists>d. handle_failure h wid (str_exn e) s1 hs1 = (d, s2, hs2)"
  using assms by (auto simp: run_def split: prod.splits)

lemma handle_failure_result:
  assumes "handle_failure h wid msg s hs = (d, s', hs')"
  shows "rollback h (saga s) hs = (fr_compensation_results d, saga s', hs')"
    and "fr_compensation_executed d"
    and "fr_plan_id d = plan_id s" and "fr_failed_step_id d = failed_step_id s"
    and "fr_error d = msg" and "fr_status d = ''failed''"
    and "events s' = events s @ [WorkflowFailed wid (plan_id s) (failed_step_id s) msg True
                                   (fr_compensation_results d)]"
  using assms
  by (auto simp: handle_failure_def Let_def append_event_saga append_event_events
           split: prod.splits)


lemma compensation_entry_step_ids:
  "length outcomes = length cs \<Longrightarrow>
   map cr_step_id (map2 compensation_entry cs outcomes) = map step_id cs"
proof (induction cs arbitrary: outcomes)
  case Nil
  then show ?case by simp
next
  case (Cons c cs)
  then show ?case
    by (cases outcomes) (auto simp: compensation_entry_def split: sum.splits)
qed

text \<open>
  Claim C1. In every failed run, \<^verbatim>\<open>rollback\<close> is called on the compensation stack as the
  failure left it and returns one entry for each compensation on it, in exactly the
  reverse of the registration order. The compensations are executed one at a time in
  that order: each is dispatched to the collaborator in the world that the one before
  it left, its entry records the outcome of that very call (the result of a success, the
  text of the exception of a failure), and nothing else is dispatched. The list is the
  one recorded in the \<^verbatim>\<open>WorkflowFailed\<close> event.
\<close>

theorem rollback_lifo:
  assumes "run_try h wid g uid ctx (s\<lparr>saga := new_saga\<rparr>) hs = (Inl e, s1, hs1)"
    and "run h wid g uid ctx s hs = (out, s2, hs2)"
  shows "\<exists>rs. rollback h (saga s1) hs1 = (rs, saga s2, hs2)
           \<and> rs = map2 compensation_entry (rev (compensation_stack (saga s1)))
                    (fst (dispatch_all h
                            (map compensation_request (rev (compensation_stack (saga s1))))
                            (world hs1)))
           \<and> length rs = length (compensation_stack (saga s1))
           \<and> map cr_step_id rs = rev (map step_id (compensation_stack (saga s1)))
           \<and> world hs2
               = snd (dispatch_all h
                        (map compensation_request (rev (compensation_stack (saga s1))))
                        (world hs1))
           \<and> history hs2
               = history hs1 @ map compensation_request (rev (compensation_stack (saga s1)))
           \<and> last (events s2)
               = WorkflowFailed wid (plan_id s1) (failed_step_id s1) (str_exn e) True rs"
proof -
  let ?cs = "rev (compensation_stack (saga s1))"
  let ?out = "dispatch_all h (map compensation_request ?cs) (world hs1)"
  have fresh: "\<not> rollback_executed (saga s1)"
    using run_try_flag [OF assms(1)] by (simp add: new_saga_def)
  from failed_run [OF assms] obtain d where
    hf: "handle_failure h wid (str_exn e) s1 hs1 = (d, s2, hs2)"
    by blast
  note res = handle_failure_result [OF hf]
  from res(1) rollback_outcomes [OF fresh, of h hs1] have
    rs: "fr_compensation_results d = map2 compensation_entry ?cs (fst ?out)"
    and hs2: "hs2 = \<lparr>world = snd ?out, history = history hs1 @ map compensation_request ?cs\<rparr>"
    by simp_all
  have len: "length (fst ?out) = length ?cs"
    by (simp add: dispatch_all_length)
  have ids: "map cr_step_id (fr_compensation_results d)
      = rev (map step_id (compensation_stack (saga s1)))"
    unfolding rs using compensation_entry_step_ids [OF len] by (simp add: rev_map)
  have "length (fr_compensation_results d) = length (compensation_stack (saga s1))"
    using len by (simp add: rs)
  with res(1) res(7) rs ids hs2 show ?thesis
    by simp
qed

theorem rollback_lifo_witness:
  "\<exists>s1 hs1 out s2 hs2.
     trip_try trip_plan ''book_car'' = (Inl (ActivityError ''failed: book_car''), s1, hs1)
     \<and> trip_run trip_plan ''book_car'' = (out, s2, hs2)
     \<and> map step_id (compensation_stack (saga s1)) = [''step_0'', ''step_1'']
     \<and> rollback (trip_host trip_plan ''book_car'') (saga s1) hs1
         = ([\<lparr>cr_step_id = ''step_1'', cr_success = True,
               cr_result = Some [(''booking_id'', PStr ''BK-cancel_hotel'')],
               cr_error = None\<rparr>,
             \<lparr>cr_step_id = ''step_0'', cr_success = True,
               cr_result = Some [(''booking_id'', PStr ''BK-cancel_flight'')],
               cr_error = None\<rparr>],
            saga s2, hs2)
     \<and> map ac_name (history hs2)
         = map ac_name (history hs1) @ [''cancel_hotel'', ''cancel_flight'']"
proof -
  have failed: "fst (trip_try trip_plan ''book_car'') = Inl (ActivityError ''failed: book_car'')"
    by code_simp
  have stack: "map step_id (compensation_stack (saga (fst (snd (trip_try trip_plan ''book_car'')))))
      = [''step_0'', ''step_1'']"
    by code_simp
  have names: "map (ac_name \<circ> compensation_request)
      (rev (compensation_stack (saga (fst (snd (trip_try trip_plan ''book_car''))))))
      = [''cancel_hotel'', ''cancel_flight'']"
    by code_simp
  have entries: "fst (rollback (trip_host trip_plan ''book_car'')
        (saga (fst (snd (trip_try trip_plan ''book_car''))))
        (snd (snd (trip_try trip_plan ''book_car''))))
      = [\<lparr>cr_step_id = ''step_1'', cr_success = True,
            cr_result = Some [(''booking_id'', PStr ''BK-cancel_hotel'')],
            cr_error = None\<rparr>,
          \<lparr>cr_step_id = ''step_0'', cr_success = True,
            cr_result = Some [(''booking_id'', PStr ''BK-cancel_flight'')],
            cr_error = None\<rparr>]"
    by code_simp
  obtain s1 hs1 where t: "run_try (trip_host trip_plan ''book_car'') ''wf-1'' ''book Paris trip''
      ''user-1'' None (init\<lparr>saga := new_saga\<rparr>) trip_start
      = (Inl (ActivityError ''failed: book_car''), s1, hs1)"
    using failed by (cases "trip_try trip_plan ''book_car''") (simp add: trip_try_def)
  obtain out s2 hs2 where r: "run (trip_host trip_plan ''book_car'') ''wf-1'' ''book Paris trip''
      ''user-1'' None init trip_start = (out, s2, hs2)"
    by (metis prod_cases3)
  from rollback_lifo [OF t r] obtain rs where
    rb: "rollback (trip_host trip_plan ''book_car'') (saga s1) hs1 = (rs, saga s2, hs2)"
    and hist: "history hs2
               = history hs1 @ map compensation_request (rev (compensation_stack (saga s1)))"
    by blast
  from t have s1: "fst (snd (trip_try trip_plan ''book_car'')) = s1"
    and hs1: "snd (snd (trip_try trip_plan ''book_car'')) = hs1"
    by (simp_all add: trip_try_def)
  from entries rb have rs: "rs = [\<lparr>cr_step_id = ''step_1'', cr_success = True,
            cr_result = Some [(''booking_id'', PStr ''BK-cancel_hotel'')],
            cr_error = None\<rparr>,
          \<lparr>cr_step_id = ''step_0'', cr_success = True,
            cr_result = Some [(''booking_id'', PStr ''BK-cancel_flight'')],
            cr_error = None\<rparr>]"
    unfolding s1 hs1 by simp
  from names hist have hist': "map ac_name (history hs2)
         = map ac_name (history hs1) @ [''cancel_hotel'', ''cancel_flight'']"
    unfolding s1 by simp
  from stack have stack': "map step_id (compensation_stack (saga s1)) = [''step_0'', ''step_1'']"
    unfolding s1 .
  from t have t': "trip_try trip_plan ''book_car''
      = (Inl (ActivityError ''failed: book_car''), s1, hs1)"
    by (simp add: trip_try_def)
  from r have r': "trip_run trip_plan ''book_car'' = (out, s2, hs2)"
    by (simp add: trip_run_def)
  note rb' = rb [unfolded rs]
  show ?thesis
    by (rule exI [of _ s1], rule exI [of _ hs1], rule exI [of _ out], rule exI [of _ s2],
        rule exI [of _ hs2], simp only: t' r' stack' rb' hist' simp_thms)
qed

text \<open>
  Claim C3, as the specification states it: after the rollback of a failed run the
  compensation stack is empty. The run of the trip plan whose third step fails ends
  with both registered compensations still on the stack.
\<close>

theorem stack_not_emptied_counterexample:
  "isl (fst (trip_run trip_plan ''book_car''))
   \<and> map step_id (compensation_stack (saga (fst (snd (trip_run trip_plan ''book_car'')))))
       = [''step_0'', ''step_1'']"
  by code_simp

text \<open>
  Claim C3, amended. \<^verbatim>\<open>rollback\<close> iterates over the reversed stack and pops nothing: in
  every failed run the compensation stack after the rollback holds the entries it held
  when the run failed, and the flag \<^verbatim>\<open>rollback_executed\<close> is set, which is what keeps the
  entries from being executed again.
\<close>

theorem rollback_keeps_stack:
  assumes "run_try h wid g uid ctx (s\<lparr>saga := new_saga\<rparr>) hs = (Inl e, s1, hs1)"
    and "run h wid g uid ctx s hs = (out, s2, hs2)"
  shows "compensation_stack (saga s2) = compensation_stack (saga s1)
         \<and> rollback_executed (saga s2)"
proof -
  from failed_run [OF assms] obtain d where
    "handle_failure h wid (str_exn e) s1 hs1 = (d, s2, hs2)"
    by blast
  from rollback_flag_stack [OF handle_failure_result(1) [OF this]] show ?thesis
    by simp
qed

theorem rollback_keeps_stack_witness:
  "\<exists>s1 hs1 out s2 hs2.
     trip_try trip_plan ''book_car'' = (Inl (ActivityError ''failed: book_car''), s1, hs1)
     \<and> trip_run trip_plan ''book_car'' = (out, s2, hs2)
     \<and> compensation_stack (saga s2) = compensation_stack (saga s1)
     \<and> length (compensation_stack (saga s2)) = 2
     \<and> rollback_executed (saga s2)"
proof -
  have failed: "fst (trip_try trip_plan ''book_car'') = Inl (ActivityError ''failed: book_car'')"
    by code_simp
  have len: "length (compensation_stack (saga (fst (snd (trip_run trip_plan ''book_car''))))) = 2"
    by code_simp
  obtain s1 hs1 where t: "run_try (trip_host trip_plan ''book_car'') ''wf-1'' ''book Paris trip''
      ''user-1'' None (init\<lparr>saga := new_saga\<rparr>) trip_start
      = (Inl (ActivityError ''failed: book_car''), s1, hs1)"
    using failed by (cases "trip_try trip_plan ''book_car''") (simp add: trip_try_def)
  obtain out s2 hs2 where r: "run (trip_host trip_plan ''book_car'') ''wf-1'' ''book Paris trip''
      ''user-1'' None init trip_start = (out, s2, hs2)"
    by (metis prod_cases3)
  from r len have "length (compensation_stack (saga s2)) = 2"
    by (simp add: trip_run_def)
  with rollback_keeps_stack [OF t r] t r show ?thesis
    by (simp add: trip_try_def trip_run_def)
qed

text \<open>
  Claim C5. \<^verbatim>\<open>rollback\<close> is idempotent: after any call of \<^verbatim>\<open>rollback\<close> on a saga
  context, a second call returns the empty list and leaves the saga context and the
  host unchanged; in particular no call is added to the history of dispatched
  activities, so no compensation is executed again.
\<close>

theorem rollback_idempotent:
  assumes "rollback h sg hs = (rs, sg', hs')"
  shows "rollback h sg' hs' = ([], sg', hs')"
  using rollback_flag_stack [OF assms] by (simp add: rollback_again)

theorem rollback_idempotent_witness:
  "map cr_step_id (fst (rollback (trip_host trip_plan []) trip_saga trip_start))
     = [''step_1'', ''step_0'']
   \<and> map ac_name (history (snd (snd (rollback (trip_host trip_plan []) trip_saga trip_start))))
     = [''cancel_hotel'', ''cancel_flight'']
   \<and> rollback (trip_host trip_plan [])
       (fst (snd (rollback (trip_host trip_plan []) trip_saga trip_start)))
       (snd (snd (rollback (trip_host trip_plan []) trip_saga trip_start)))
     = ([], fst (snd (rollback (trip_host trip_plan []) trip_saga trip_start)),
        snd (snd (rollback (trip_host trip_plan []) trip_saga trip_start)))"
proof -
  have first: "map cr_step_id (fst (rollback (trip_host trip_plan []) trip_saga trip_start))
     = [''step_1'', ''step_0'']"
    by code_simp
  have calls: "map ac_name
      (history (snd (snd (rollback (trip_host trip_plan []) trip_saga trip_start))))
     = [''cancel_hotel'', ''cancel_flight'']"
    by code_simp
  have "rollback (trip_host trip_plan []) trip_saga trip_start
     = (fst (rollback (trip_host trip_plan []) trip_saga trip_start),
        fst (snd (rollback (trip_host trip_plan []) trip_saga trip_start)),
        snd (snd (rollback (trip_host trip_plan []) trip_saga trip_start)))"
    by simp
  from rollback_idempotent [OF this] first calls show ?thesis
    by simp
qed

section \<open>Executing a step with its compensation\<close>

text \<open>
  Claim C6. When the activity of a step fails, \<^verbatim>\<open>execute_with_compensation\<close> propagates
  the failure and returns the saga context as it was, with nothing registered. When the
  activity succeeds and a compensation activity is declared (a name that is not empty,
  which is what the method tests), the saga context returned holds the new compensation
  on top of the stack: its name, the step identifier and the compensation input resolved
  against the result of this activity.
\<close>

theorem execute_with_compensation_registers:
  "(execute_activity h name inp sid False hs = (Inl e, hs') \<longrightarrow>
      execute_with_compensation h name inp ca ci sid sg hs = (Inl e, sg, hs'))
   \<and> (execute_activity h name inp sid False hs = (Inr result, hs')
        \<and> ca = Some cname \<and> cname \<noteq> [] \<longrightarrow>
      execute_with_compensation h name inp ca ci sid sg hs
        = (Inr result,
           sg\<lparr>compensation_stack := compensation_stack sg @
                [\<lparr>activity_name = cname,
                  input = inject_result_values (case ci of Some c \<Rightarrow> c | None \<Rightarrow> []) result,
                  step_id = sid\<rparr>]\<rparr>,
           hs'))"
  by (simp add: execute_with_compensation_def Let_def)

theorem execute_with_compensation_registers_witness:
  "execute_activity (trip_host trip_plan ''book_flight'') ''book_flight'' [] ''step_0'' False
       trip_start
     = (Inl (ActivityError ''failed: book_flight''),
        \<lparr>world = (), history = [activity_request ''book_flight'' [] False]\<rparr>)
   \<and> execute_with_compensation (trip_host trip_plan ''book_flight'') ''book_flight'' []
       (Some ''cancel_flight'') (Some [(''booking_id'', PStr ''{result.booking_id}'')])
       ''step_0'' trip_saga trip_start
     = (Inl (ActivityError ''failed: book_flight''), trip_saga,
        \<lparr>world = (), history = [activity_request ''book_flight'' [] False]\<rparr>)
   \<and> execute_activity (trip_host trip_plan []) ''book_car'' [] ''step_2'' False trip_start
     = (Inr [(''booking_id'', PStr ''BK-book_car'')],
        \<lparr>world = (), history = [activity_request ''book_car'' [] False]\<rparr>)
   \<and> execute_with_compensation (trip_host trip_plan []) ''book_car'' []
       (Some ''cancel_car'') (Some [(''booking_id'', PStr ''{result.booking_id}'')])
       ''step_2'' trip_saga trip_start
     = (Inr [(''booking_id'', PStr ''BK-book_car'')],
        trip_saga\<lparr>compensation_stack := compensation_stack trip_saga @
          [\<lparr>activity_name = ''cancel_car'',
            input = [(''booking_id'', PStr ''BK-book_car'')], step_id = ''step_2''\<rparr>]\<rparr>,
        \<lparr>world = (), history = [activity_request ''book_car'' [] False]\<rparr>)"
proof -
  have fails: "execute_activity (trip_host trip_plan ''book_flight'') ''book_flight'' []
      ''step_0'' False trip_start
     = (Inl (ActivityError ''failed: book_flight''),
        \<lparr>world = (), history = [activity_request ''book_flight'' [] False]\<rparr>)"
    by (simp add: execute_activity_def workflow_execute_activity_def trip_host_def
          trip_start_def activity_request_def)
  have succeeds: "execute_activity (trip_host trip_plan []) ''book_car'' [] ''step_2'' False
      trip_start
     = (Inr [(''booking_id'', PStr ''BK-book_car'')],
        \<lparr>world = (), history = [activity_request ''book_car'' [] False]\<rparr>)"
    by (simp add: execute_activity_def workflow_execute_activity_def trip_host_def
          trip_start_def activity_request_def)
  have inj: "inject_result_values [(''booking_id'', PStr ''{result.booking_id}'')]
      [(''booking_id'', PStr ''BK-book_car'')] = [(''booking_id'', PStr ''BK-book_car'')]"
    by code_simp
  from fails succeeds inj
    execute_with_compensation_registers [where h = "trip_host trip_plan ''book_flight''"
      and name = "''book_flight''" and inp = "[]" and sid = "''step_0''" and hs = trip_start
      and e = "ActivityError ''failed: book_flight''"
      and hs' = "\<lparr>world = (), history = [activity_request ''book_flight'' [] False]\<rparr>"
      and ca = "Some ''cancel_flight''"
      and ci = "Some [(''booking_id'', PStr ''{result.booking_id}'')]" and sg = trip_saga]
    execute_with_compensation_registers [where h = "trip_host trip_plan []"
      and name = "''book_car''" and inp = "[]" and sid = "''step_2''" and hs = trip_start
      and ca = "Some ''cancel_car''"
      and ci = "Some [(''booking_id'', PStr ''{result.booking_id}'')]" and sg = trip_saga
      and result = "[(''booking_id'', PStr ''BK-book_car'')]"
      and hs' = "\<lparr>world = (), history = [activity_request ''book_car'' [] False]\<rparr>"
      and cname = "''cancel_car''"]
  show ?thesis
    by simp
qed

section \<open>The failure result\<close>

text \<open>
  Claim C10. In every failed run the failure result that \<^verbatim>\<open>_handle_failure\<close> builds has
  \<^verbatim>\<open>compensation_executed\<close> true, and the \<^verbatim>\<open>WorkflowFailed\<close> event it appends, the last
  event of the run, has \<^verbatim>\<open>compensation_executed\<close> true and carries the rollback results.
  This holds whether or not any compensation was on the stack: with an empty stack the
  rollback results are empty and nothing is dispatched, and the flag is true all the
  same. The witness is a run whose plan generation fails.
\<close>

theorem failed_run_compensation_executed:
  assumes "run_try h wid g uid ctx (s\<lparr>saga := new_saga\<rparr>) hs = (Inl e, s1, hs1)"
    and "run h wid g uid ctx s hs = (out, s2, hs2)"
  shows "\<exists>d. handle_failure h wid (str_exn e) s1 hs1 = (d, s2, hs2)
           \<and> fr_compensation_executed d
           \<and> fr_compensation_results d = fst (rollback h (saga s1) hs1)
           \<and> events s2
               = events s1 @ [WorkflowFailed wid (plan_id s1) (failed_step_id s1) (str_exn e)
                                True (fr_compensation_results d)]
           \<and> (compensation_stack (saga s1) = []
                \<longrightarrow> fr_compensation_results d = [] \<and> hs2 = hs1)"
proof -
  from failed_run [OF assms] obtain d where
    hf: "handle_failure h wid (str_exn e) s1 hs1 = (d, s2, hs2)"
    by blast
  note res = handle_failure_result [OF hf]
  have "compensation_stack (saga s1) = [] \<longrightarrow> fr_compensation_results d = [] \<and> hs2 = hs1"
    using res(1) by (auto simp: rollback_def Let_def split: if_splits)
  with hf res show ?thesis
    by simp
qed


theorem failed_run_compensation_executed_witness:
  "\<exists>s1 hs1 out s2 hs2 d.
     trip_try trip_plan ''generate_plan_with_llm''
       = (Inl (ActivityError ''planner down''), s1, hs1)
     \<and> trip_run trip_plan ''generate_plan_with_llm'' = (out, s2, hs2)
     \<and> handle_failure (trip_host trip_plan ''generate_plan_with_llm'') ''wf-1''
          ''planner down'' s1 hs1 = (d, s2, hs2)
     \<and> compensation_stack (saga s1) = []
     \<and> fr_compensation_results d = []
     \<and> hs2 = hs1
     \<and> fr_compensation_executed d
     \<and> events s2 = events s1 @ [WorkflowFailed ''wf-1'' [] [] ''planner down'' True []]"
proof -
  have failed: "fst (trip_try trip_plan ''generate_plan_with_llm'')
      = Inl (ActivityError ''planner down'')"
    by code_simp
  have st: "compensation_stack (saga (fst (snd (trip_try trip_plan ''generate_plan_with_llm''))))
      = []"
    by code_simp
  have pid: "plan_id (fst (snd (trip_try trip_plan ''generate_plan_with_llm''))) = []"
    by code_simp
  have fid: "failed_step_id (fst (snd (trip_try trip_plan ''generate_plan_with_llm''))) = []"
    by code_simp
  obtain s1 hs1 where t: "run_try (trip_host trip_plan ''generate_plan_with_llm'') ''wf-1''
      ''book Paris trip'' ''user-1'' None (init\<lparr>saga := new_saga\<rparr>) trip_start
      = (Inl (ActivityError ''planner down''), s1, hs1)"
    using failed
    by (cases "trip_try trip_plan ''generate_plan_with_llm''") (simp add: trip_try_def)
  obtain out s2 hs2 where r: "run (trip_host trip_plan ''generate_plan_with_llm'') ''wf-1''
      ''book Paris trip'' ''user-1'' None init trip_start = (out, s2, hs2)"
    by (metis prod_cases3)
  from t have s1: "fst (snd (trip_try trip_plan ''generate_plan_with_llm'')) = s1"
    by (simp add: trip_try_def)
  note at_s1 = st [unfolded s1] pid [unfolded s1] fid [unfolded s1]
  from t have t': "trip_try trip_plan ''generate_plan_with_llm''
      = (Inl (ActivityError ''planner down''), s1, hs1)"
    by (simp add: trip_try_def)
  from r have r': "trip_run trip_plan ''generate_plan_with_llm'' = (out, s2, hs2)"
    by (simp add: trip_run_def)
  from failed_run_compensation_executed [OF t r] at_s1 obtain d where
    hf: "handle_failure (trip_host trip_plan ''generate_plan_with_llm'') ''wf-1''
          ''planner down'' s1 hs1 = (d, s2, hs2)"
    and none: "fr_compensation_results d = []" and same: "hs2 = hs1"
    and flag: "fr_compensation_executed d"
    and ev: "events s2 = events s1 @ [WorkflowFailed ''wf-1'' [] [] ''planner down'' True []]"
    by auto
  show ?thesis
    by (rule exI [of _ s1], rule exI [of _ hs1], rule exI [of _ out], rule exI [of _ s2],
        rule exI [of _ hs2], rule exI [of _ d])
       (use t' r' hf none same flag ev at_s1(1) in simp)
qed

section \<open>The soft failure of the cache lookup\<close>

lemma workflow_execute_activity_history:
  "workflow_execute_activity f c hs = (r, hs') \<Longrightarrow> history hs' = history hs @ [c]"
  by (auto simp: workflow_execute_activity_def split: prod.splits)

lemma execute_with_compensation_history:
  "execute_with_compensation h n i ca ci sid sg hs = (r, sg', hs') \<Longrightarrow>
   history hs' = history hs @ [activity_request n i False]"
  by (auto simp: execute_with_compensation_def Let_def
           split: prod.splits sum.splits option.splits if_splits
           dest: execute_activity_history)

lemma execute_step_history:
  "execute_step h wid idx step s hs = (r, s', hs') \<Longrightarrow> prefix (history hs) (history hs')"
  by (auto simp: execute_step_def Let_def
           split: option.splits prod.splits sum.splits exn.splits
           dest: execute_with_compensation_history)

lemma execute_plan_loop_history:
  "execute_plan_loop h wid idx steps s hs = (r, s', hs') \<Longrightarrow>
   prefix (history hs) (history hs')"
proof (induction steps arbitrary: idx s hs)
  case Nil
  then show ?case by simp
next
  case (Cons step steps)
  then show ?case
    by (auto split: prod.splits sum.splits dest: execute_step_history
             intro: prefix_order.trans)
qed

lemma rollback_history:
  "rollback h sg hs = (rs, sg', hs') \<Longrightarrow> prefix (history hs) (history hs')"
  by (auto simp: rollback_def Let_def split: if_splits prod.splits
           dest: rollback_loop_history)

lemma handle_failure_history:
  "handle_failure h wid msg s hs = (d, s', hs') \<Longrightarrow> prefix (history hs) (history hs')"
  by (auto simp: handle_failure_def Let_def split: prod.splits dest: rollback_history)

lemma check_semantic_cache_soft:
  assumes "cache_lookup h (world hs) (cache_request g) = (Inl (ActivityError m), w')"
  shows "check_semantic_cache h g hs
           = (Inr None, \<lparr>world = w', history = history hs @ [cache_request g]\<rparr>)"
  using assms by (simp add: check_semantic_cache_def workflow_execute_activity_def)

lemma run_try_after_miss:
  assumes "check_semantic_cache h g hs = (Inr None, hs1)"
    and "run_try h wid g uid ctx s hs = (r, s', hs')"
  shows "prefix (history hs1 @ [plan_request g (case ctx of Some c \<Rightarrow> c | None \<Rightarrow> [])])
           (history hs')"
proof -
  obtain p hs2 where gen: "generate_plan_with_llm h g (case ctx of Some c \<Rightarrow> c | None \<Rightarrow> []) hs1
      = (p, hs2)"
    by (metis prod.exhaust)
  then have h2: "history hs2
      = history hs1 @ [plan_request g (case ctx of Some c \<Rightarrow> c | None \<Rightarrow> [])]"
    by (auto simp: generate_plan_with_llm_def dest: workflow_execute_activity_history)
  from assms gen have "prefix (history hs2) (history hs')"
    by (auto simp: run_try_def Let_def execute_plan_def handle_success_def
             split: option.splits prod.splits sum.splits
             dest: execute_plan_loop_history)
  with h2 show ?thesis by simp
qed


lemma execute_activity_cache_free:
  "execute_activity (h\<lparr>cache_lookup := f\<rparr>) = execute_activity h"
  by (intro ext) (simp add: execute_activity_def)

lemma execute_with_compensation_cache_free:
  "execute_with_compensation (h\<lparr>cache_lookup := f\<rparr>) = execute_with_compensation h"
  by (intro ext) (simp add: execute_with_compensation_def execute_activity_cache_free)

lemma rollback_loop_cache_free:
  "rollback_loop (h\<lparr>cache_lookup := f\<rparr>) cs rs hs = rollback_loop h cs rs hs"
  by (induction cs arbitrary: rs hs)
     (simp_all add: execute_activity_cache_free split: prod.split sum.split)

lemma rollback_cache_free:
  "rollback (h\<lparr>cache_lookup := f\<rparr>) = rollback h"
  by (intro ext) (simp add: rollback_def rollback_loop_cache_free Let_def)

lemma execute_step_cache_free:
  "execute_step (h\<lparr>cache_lookup := f\<rparr>) = execute_step h"
  by (intro ext)
     (simp add: execute_step_def execute_with_compensation_cache_free Let_def
        split: option.split)

lemma execute_plan_loop_cache_free:
  "execute_plan_loop (h\<lparr>cache_lookup := f\<rparr>) wid idx steps s hs
     = execute_plan_loop h wid idx steps s hs"
  by (induction steps arbitrary: idx s hs)
     (simp_all add: execute_step_cache_free split: prod.split sum.split)

lemma run_after_cache:
  assumes "check_semantic_cache h g hs = check_semantic_cache (h\<lparr>cache_lookup := f\<rparr>) g hs"
  shows "run h wid g uid ctx s hs = run (h\<lparr>cache_lookup := f\<rparr>) wid g uid ctx s hs"
  using assms
  by (simp add: run_def run_try_def handle_failure_def execute_plan_def Let_def
        generate_plan_with_llm_def rollback_cache_free execute_plan_loop_cache_free
      split: prod.split sum.split option.split)

text \<open>
  Claim C9. When the cache-lookup collaborator raises an \<^verbatim>\<open>ActivityError\<close>, the lookup
  returns no plan instead of raising; the run is the very run that would have happened
  had the collaborator answered with a miss, and the next activity it dispatches is the
  plan generation.
\<close>

theorem cache_error_is_miss:
  assumes "cache_lookup h (world hs) (cache_request g) = (Inl (ActivityError m), w')"
  shows "check_semantic_cache h g hs
           = (Inr None, \<lparr>world = w', history = history hs @ [cache_request g]\<rparr>)
         \<and> run h wid g uid ctx s hs
           = run (h\<lparr>cache_lookup := \<lambda>w c. (Inr None, w')\<rparr>) wid g uid ctx s hs
         \<and> prefix (history hs @ [cache_request g,
                      plan_request g (case ctx of Some c \<Rightarrow> c | None \<Rightarrow> [])])
             (history (snd (snd (run h wid g uid ctx s hs))))"
proof -
  let ?hs1 = "\<lparr>world = w', history = history hs @ [cache_request g]\<rparr>"
  have soft: "check_semantic_cache h g hs = (Inr None, ?hs1)"
    by (rule check_semantic_cache_soft [OF assms])
  have miss: "check_semantic_cache (h\<lparr>cache_lookup := \<lambda>w c. (Inr None, w')\<rparr>) g hs
      = (Inr None, ?hs1)"
    by (simp add: check_semantic_cache_def workflow_execute_activity_def)
  have same: "run h wid g uid ctx s hs
      = run (h\<lparr>cache_lookup := \<lambda>w c. (Inr None, w')\<rparr>) wid g uid ctx s hs"
    by (rule run_after_cache) (simp add: soft miss)
  obtain r s1 hs1 where t: "run_try h wid g uid ctx (s\<lparr>saga := new_saga\<rparr>) hs = (r, s1, hs1)"
    by (metis prod_cases3)
  have p1: "prefix (history ?hs1 @ [plan_request g (case ctx of Some c \<Rightarrow> c | None \<Rightarrow> [])])
      (history hs1)"
    by (rule run_try_after_miss [OF soft t])
  have p2: "prefix (history hs1) (history (snd (snd (run h wid g uid ctx s hs))))"
    using t by (auto simp: run_def split: sum.splits prod.splits dest: handle_failure_history)
  from prefix_order.trans [OF p1 p2] soft same show ?thesis
    by simp
qed

theorem cache_error_is_miss_witness:
  "cache_lookup (trip_host trip_plan ''check_semantic_cache'') (world trip_start)
       (cache_request ''book Paris trip'')
     = (Inl (ActivityError ''cache down''), ())
   \<and> check_semantic_cache (trip_host trip_plan ''check_semantic_cache'') ''book Paris trip''
       trip_start
     = (Inr None, \<lparr>world = (), history = [cache_request ''book Paris trip'']\<rparr>)
   \<and> prefix [cache_request ''book Paris trip'', plan_request ''book Paris trip'' []]
       (history (snd (snd (trip_run trip_plan ''check_semantic_cache''))))
   \<and> \<not> isl (fst (trip_run trip_plan ''check_semantic_cache''))"
proof -
  have raised: "cache_lookup (trip_host trip_plan ''check_semantic_cache'') (world trip_start)
       (cache_request ''book Paris trip'')
     = (Inl (ActivityError ''cache down''), ())"
    by (simp add: trip_host_def)
  have completes: "\<not> isl (fst (trip_run trip_plan ''check_semantic_cache''))"
    by code_simp
  note soft = cache_error_is_miss [OF raised, of "''wf-1''" "''user-1''" None init]
  from soft [THEN conjunct1] soft [THEN conjunct2, THEN conjunct2] raised completes
  show ?thesis
    by (simp add: trip_run_def trip_start_def)
qed

section \<open>Successful runs\<close>

lemma append_event_plan_steps_tool:
  "plan_steps (append_event s (ToolCallRequested a b c d e)) = plan_steps s"
  "plan_steps (append_event s (ToolResultReceived a b' c' d' e' f)) = plan_steps s"
  "plan_steps (append_event s (WorkflowCompleted a b' n m r)) = plan_steps s"
  "plan_id (append_event s (WorkflowCompleted a b' n m r)) = plan_id s"
  by (simp_all add: append_event_def check_threshold_def)

lemma execute_step_success:
  assumes "execute_step h wid idx step s hs = (Inr u, s', hs')"
  shows "\<exists>result. step_results s'
           = AList.update (step_id_of idx step) result (step_results s)"
    and "plan_steps s' = plan_steps s"
  using assms
  by (auto simp: execute_step_def Let_def append_event_step_results
                 append_event_plan_steps_tool
           split: option.splits prod.splits sum.splits exn.splits)

lemma execute_plan_loop_success:
  assumes "execute_plan_loop h wid idx steps s hs = (Inr u, s', hs')"
    and "distinct (map fst (step_results s))"
  shows "distinct (map fst (step_results s'))
         \<and> set (map fst (step_results s'))
             = set (map fst (step_results s))
               \<union> set (map (\<lambda>(i, step). step_id_of i step) (enumerate idx steps))
         \<and> plan_steps s' = plan_steps s"
  using assms
proof (induction steps arbitrary: idx s hs)
  case Nil
  then show ?case by simp
next
  case (Cons step steps)
  from Cons.prems(1) obtain s1 hs1 where
    one: "execute_step h wid idx step s hs = (Inr (), s1, hs1)"
    and rest: "execute_plan_loop h wid (Suc idx) steps s1 hs1 = (Inr u, s', hs')"
    by (auto split: prod.splits sum.splits)
  from execute_step_success [OF one] obtain result where
    upd: "step_results s1 = AList.update (step_id_of idx step) result (step_results s)"
    and ps: "plan_steps s1 = plan_steps s"
    by blast
  from upd Cons.prems(2) have d1: "distinct (map fst (step_results s1))"
    by (simp add: distinct_update)
  from upd have k1: "set (map fst (step_results s1))
      = insert (step_id_of idx step) (set (map fst (step_results s)))"
    using dom_update [of "step_id_of idx step" result "step_results s"] by simp
  from Cons.IH [OF rest d1] k1 ps show ?case
    by auto
qed


lemma run_try_success:
  assumes "run_try h wid g uid ctx s hs = (Inr r, s', hs')"
  shows "\<exists>sp hsp s3. step_results sp = step_results s
           \<and> execute_plan_loop h wid 0 (plan_steps sp) sp hsp = (Inr (), s3, hs')
           \<and> handle_success wid s3 = (r, s')"
  using assms
  by (auto simp: run_try_def Let_def execute_plan_def
           split: option.splits prod.splits sum.splits)
     (metis append_event_step_results)+

lemma handle_success_result:
  assumes "handle_success wid s = (r, s')"
  shows "sr_results r = step_results s" and "step_results s' = step_results s"
    and "plan_steps s' = plan_steps s"
    and "events s' = events s @ [WorkflowCompleted wid (plan_id s') (length (plan_steps s')) 0 r]"
  using assms
  by (auto simp: handle_success_def Let_def append_event_step_results append_event_events
                 append_event_plan_steps_tool)

text \<open>
  Claim C8, as the specification states it: in every successful run the step-results
  mapping has as many entries as the plan has steps. The results are keyed by the step
  identifier, so the successful run of a plan whose two steps carry the same identifier
  ends with one entry for two steps.
\<close>

theorem twin_steps_counterexample:
  "\<not> isl (fst (trip_run twin_plan []))
   \<and> length (sr_results (projr (fst (trip_run twin_plan [])))) = 1
   \<and> length (step_results (fst (snd (trip_run twin_plan [])))) = 1
   \<and> length (plan_steps (fst (snd (trip_run twin_plan [])))) = 2"
  by code_simp

text \<open>
  Claim C8, amended. In every successful run the step-results mapping has one entry for
  each distinct step identifier of the plan (the \<^verbatim>\<open>id\<close> of the step, or \<^verbatim>\<open>step_<index>\<close>
  when it has none): its keys are pairwise distinct and are exactly the step
  identifiers of the plan. It has as many entries as the plan has steps when these
  identifiers are pairwise distinct. The mapping returned is the one of the workflow
  state, and \<^verbatim>\<open>WorkflowCompleted\<close> is the last event of the log.
\<close>

theorem successful_run_results:
  assumes "run h wid g uid ctx init hs = (Inr r, s2, hs2)"
  shows "sr_results r = step_results s2
         \<and> distinct (map fst (sr_results r))
         \<and> set (map fst (sr_results r)) = set (step_ids (plan_steps s2))
         \<and> length (sr_results r) = card (set (step_ids (plan_steps s2)))
         \<and> (distinct (step_ids (plan_steps s2))
              \<longrightarrow> length (sr_results r) = length (plan_steps s2))
         \<and> events s2 \<noteq> []
         \<and> last (events s2)
             = WorkflowCompleted wid (plan_id s2) (length (plan_steps s2)) 0 r"
proof -
  from assms have "run_try h wid g uid ctx (init\<lparr>saga := new_saga\<rparr>) hs = (Inr r, s2, hs2)"
    by (auto simp: run_def split: prod.splits sum.splits)
  from run_try_success [OF this] obtain sp hsp s3 where
    empty: "step_results sp = []"
    and loop: "execute_plan_loop h wid 0 (plan_steps sp) sp hsp = (Inr (), s3, hs2)"
    and fin: "handle_success wid s3 = (r, s2)"
    by (auto simp: init_def)
  from execute_plan_loop_success [OF loop] empty have
    d: "distinct (map fst (step_results s3))"
    and k: "set (map fst (step_results s3)) = set (step_ids (plan_steps sp))"
    and ps: "plan_steps s3 = plan_steps sp"
    by (simp_all add: step_ids_def)
  note hs = handle_success_result [OF fin]
  from hs(1) have keys: "map fst (sr_results r) = map fst (step_results s3)"
    by simp
  from hs(3) ps have ps2: "plan_steps s2 = plan_steps sp"
    by simp
  from d keys have c1: "distinct (map fst (sr_results r))"
    by simp
  from k keys ps2 have c2: "set (map fst (sr_results r)) = set (step_ids (plan_steps s2))"
    by simp
  have "length (sr_results r) = card (set (map fst (sr_results r)))"
    using distinct_card [OF c1] by simp
  with c2 have c3: "length (sr_results r) = card (set (step_ids (plan_steps s2)))"
    by simp
  have "length (step_ids (plan_steps s2)) = length (plan_steps s2)"
    by (simp add: step_ids_def)
  with c3 have c4: "distinct (step_ids (plan_steps s2))
      \<longrightarrow> length (sr_results r) = length (plan_steps s2)"
    by (auto dest: distinct_card)
  from hs(1) hs(2) have c5: "sr_results r = step_results s2"
    by simp
  from hs(4) have c6: "events s2 \<noteq> []"
    and c7: "last (events s2)
             = WorkflowCompleted wid (plan_id s2) (length (plan_steps s2)) 0 r"
    by simp_all
  from c1 c2 c3 c4 c5 c6 c7 show ?thesis
    by (intro conjI)
qed

theorem successful_run_results_witness:
  "\<exists>r s2 hs2. trip_run trip_plan [] = (Inr r, s2, hs2)
     \<and> step_ids (plan_steps s2) = [''step_0'', ''step_1'', ''step_2'']
     \<and> set (map fst (sr_results r)) = {''step_0'', ''step_1'', ''step_2''}
     \<and> length (sr_results r) = 3 \<and> length (plan_steps s2) = 3
     \<and> last (events s2) = WorkflowCompleted ''wf-1'' ''plan-1'' 3 0 r"
proof -
  have ok: "\<not> isl (fst (trip_run trip_plan []))"
    by code_simp
  have ids: "step_ids (plan_steps (fst (snd (trip_run trip_plan []))))
      = [''step_0'', ''step_1'', ''step_2'']"
    by code_simp
  have pid: "plan_id (fst (snd (trip_run trip_plan []))) = ''plan-1''"
    by code_simp
  obtain r s2 hs2 where run: "run (trip_host trip_plan []) ''wf-1'' ''book Paris trip''
      ''user-1'' None init trip_start = (Inr r, s2, hs2)"
    using ok by (cases "trip_run trip_plan []"; cases "fst (trip_run trip_plan [])")
      (auto simp: trip_run_def)
  from ids pid run have ids': "step_ids (plan_steps s2) = [''step_0'', ''step_1'', ''step_2'']"
    and pid': "plan_id s2 = ''plan-1''"
    by (simp_all add: trip_run_def)
  have "length (step_ids (plan_steps s2)) = length (plan_steps s2)"
    by (simp add: step_ids_def)
  with ids' have three: "length (plan_steps s2) = 3"
    by simp
  have dist: "distinct (step_ids (plan_steps s2))"
    unfolding ids' by simp
  note res = successful_run_results [OF run]
  from res have keys: "set (map fst (sr_results r)) = set (step_ids (plan_steps s2))"
    by (elim conjE)
  from res dist have "length (sr_results r) = length (plan_steps s2)"
    by (elim conjE) (erule mp)
  with three have len: "length (sr_results r) = 3"
    by simp
  from res have "last (events s2)
      = WorkflowCompleted ''wf-1'' (plan_id s2) (length (plan_steps s2)) 0 r"
    by (elim conjE)
  with pid' three have lst: "last (events s2) = WorkflowCompleted ''wf-1'' ''plan-1'' 3 0 r"
    by simp
  from keys ids' have keys': "set (map fst (sr_results r)) = {''step_0'', ''step_1'', ''step_2''}"
    by (simp only: list.set)
  from run have run': "trip_run trip_plan [] = (Inr r, s2, hs2)"
    by (simp add: trip_run_def)
  show ?thesis
    by (rule exI [of _ r], rule exI [of _ s2], rule exI [of _ hs2])
       (simp only: run' ids' keys' len three lst simp_thms)
qed

section \<open>Resolving the compensation input\<close>

lemma remove_all_absent: "\<not> sublist old s \<Longrightarrow> remove_all old s = s"
  by (induction s) (auto simp: sublist_Cons_right)

lemma remove_all_prefix:
  "old \<noteq> [] \<Longrightarrow> remove_all old (old @ s) = remove_all old s"
  by (cases old) simp_all

lemma remove_all_closing_brace:
  "CHR ''}'' \<notin> set f \<Longrightarrow> remove_all ''}'' (f @ ''}'') = f"
  by (induction f) (auto simp: prefix_Cons)

lemma placeholder_suffix_free:
  assumes "\<not> sublist ''{result.'' f"
  shows "\<not> sublist ''{result.'' (f @ ''}'')"
proof
  assume "sublist ''{result.'' (f @ ''}'')"
  with assms have "suffix ''{result.'' (f @ ''}'')"
    by (simp add: sublist_snoc)
  then obtain zs where "f @ ''}'' = zs @ ''{result.''"
    by (auto simp: suffix_def)
  then have "last (f @ ''}'') = last (zs @ ''{result.'')"
    by simp
  then show False
    by simp
qed

lemma field_name_of_placeholder:
  assumes "CHR ''}'' \<notin> set f" and "\<not> sublist ''{result.'' f"
  shows "remove_all ''}'' (remove_all ''{result.'' (''{result.'' @ f @ ''}'')) = f"
proof -
  have "remove_all ''{result.'' (''{result.'' @ f @ ''}'') = remove_all ''{result.'' (f @ ''}'')"
    by (rule remove_all_prefix) simp
  also have "\<dots> = f @ ''}''"
    by (rule remove_all_absent [OF placeholder_suffix_free [OF assms(2)]])
  finally have inner: "remove_all ''{result.'' (''{result.'' @ f @ ''}'') = f @ ''}''" .
  show ?thesis
    unfolding inner by (rule remove_all_closing_brace [OF assms(1)])
qed

lemma inject_value_placeholder:
  assumes "CHR ''}'' \<notin> set f" and "\<not> sublist ''{result.'' f"
  shows "inject_value (PStr (''{result.'' @ f @ ''}'')) result
           = (case map_of result f of Some x \<Rightarrow> x
              | None \<Rightarrow> PStr (''{result.'' @ f @ ''}''))"
proof -
  have "prefix ''{result.'' (''{result.'' @ f @ ''}'')"
    by (rule prefixI) simp
  with field_name_of_placeholder [OF assms] show ?thesis
    by (simp only: inject_value_def pyval.case if_True Let_def)
qed

lemma inject_fold:
  "map_of (fold (\<lambda>(key, v) injected. AList.update key (inject_value v result) injected) ci acc) k
     = (case map_of (rev ci) k of Some v \<Rightarrow> Some (inject_value v result)
        | None \<Rightarrow> map_of acc k)"
proof (induction ci arbitrary: acc)
  case Nil
  then show ?case by simp
next
  case (Cons x ci)
  then show ?case
    by (cases x) (auto simp: update_conv' map_add_def split: option.splits)
qed

lemma inject_result_values_lookup:
  assumes "distinct (map fst ci)"
  shows "map_of (inject_result_values ci result) k
           = map_option (\<lambda>v. inject_value v result) (map_of ci k)"
proof -
  from assms have "map_of (rev ci) = map_of ci"
    by (subst map_of_inject_set) (simp_all add: rev_map [symmetric])
  then show ?thesis
    by (simp add: inject_result_values_def inject_fold split: option.splits)
qed


lemma execute_with_compensation_stack:
  assumes "execute_with_compensation h name inp ca ci sid sg hs = (r, sg', hs')"
  shows "prefix (compensation_stack sg) (compensation_stack sg')"
  using assms
  by (auto simp: execute_with_compensation_def Let_def
           split: prod.splits sum.splits option.splits if_splits)

text \<open>
  Claim C7, as the specification states it: a value \<^verbatim>\<open>{result.fieldX}\<close> resolves to the
  value of \<^verbatim>\<open>fieldX\<close> in the result when the result has that field, and stays the literal
  placeholder otherwise. The field name is obtained by deleting every \<^verbatim>\<open>{result.\<close> and
  every closing brace from the value, so for the field name \<^verbatim>\<open>a}b\<close> the method looks
  \<^verbatim>\<open>ab\<close> up: a result with the field \<^verbatim>\<open>a}b\<close> leaves the placeholder in place, and a result
  without it but with a field \<^verbatim>\<open>ab\<close> replaces the placeholder.
\<close>

theorem braces_in_field_name_counterexample:
  "map_of [(''a}b'', PInt 1)] ''a}b'' = Some (PInt 1)
   \<and> inject_result_values [(''key'', PStr (''{result.'' @ ''a}b'' @ ''}''))] [(''a}b'', PInt 1)]
       = [(''key'', PStr (''{result.'' @ ''a}b'' @ ''}''))]
   \<and> map_of [(''ab'', PInt 2)] ''a}b'' = None
   \<and> inject_result_values [(''key'', PStr (''{result.'' @ ''a}b'' @ ''}''))] [(''ab'', PInt 2)]
       = [(''key'', PInt 2)]"
  by code_simp

text \<open>
  Claim C7, amended. For a field name that contains neither a closing brace nor the text
  \<^verbatim>\<open>{result.\<close>, a value \<^verbatim>\<open>{result.fieldX}\<close> of the compensation input resolves to the value
  of \<^verbatim>\<open>fieldX\<close> in the result when the result has it, and stays the literal placeholder
  otherwise. The resolution happens at registration, against the result of the activity
  just executed: the entry pushed holds the resolved input, the entries below it are
  kept as they are, and \<^verbatim>\<open>rollback\<close> dispatches each compensation with the input stored
  in its entry.
\<close>

theorem placeholder_resolution:
  "(distinct (map fst ci) \<and> map_of ci key = Some (PStr (''{result.'' @ f @ ''}''))
      \<and> CHR ''}'' \<notin> set f \<and> \<not> sublist ''{result.'' f
    \<longrightarrow> map_of (inject_result_values ci result) key
          = Some (case map_of result f of Some x \<Rightarrow> x
                  | None \<Rightarrow> PStr (''{result.'' @ f @ ''}'')))
   \<and> (execute_with_compensation h name inp ca cin sid sg hs = (r, sg', hs')
      \<longrightarrow> prefix (compensation_stack sg) (compensation_stack sg')
          \<and> (\<forall>result cname. r = Inr result \<and> ca = Some cname \<and> cname \<noteq> []
               \<longrightarrow> execute_activity h name inp sid False hs = (Inr result, hs')
                   \<and> compensation_stack sg'
                       = compensation_stack sg @
                         [\<lparr>activity_name = cname,
                           input = inject_result_values
                                     (case cin of Some c \<Rightarrow> c | None \<Rightarrow> []) result,
                           step_id = sid\<rparr>]))
   \<and> (\<not> rollback_executed sg
      \<longrightarrow> history (snd (snd (rollback h sg hs)))
          = history hs @ map (\<lambda>c. activity_request (activity_name c) (input c) True)
                           (rev (compensation_stack sg)))"
proof (intro conjI impI)
  assume a: "distinct (map fst ci) \<and> map_of ci key = Some (PStr (''{result.'' @ f @ ''}''))
      \<and> CHR ''}'' \<notin> set f \<and> \<not> sublist ''{result.'' f"
  then have d: "distinct (map fst ci)"
    and l: "map_of ci key = Some (PStr (''{result.'' @ f @ ''}''))"
    and b: "CHR ''}'' \<notin> set f" and p: "\<not> sublist ''{result.'' f"
    by blast+
  have "map_of (inject_result_values ci result) key
      = Some (inject_value (PStr (''{result.'' @ f @ ''}'')) result)"
    unfolding inject_result_values_lookup [OF d] l by simp
  then show "map_of (inject_result_values ci result) key
          = Some (case map_of result f of Some x \<Rightarrow> x
                  | None \<Rightarrow> PStr (''{result.'' @ f @ ''}''))"
    unfolding inject_value_placeholder [OF b p] .
next
  assume "execute_with_compensation h name inp ca cin sid sg hs = (r, sg', hs')"
  then show "prefix (compensation_stack sg) (compensation_stack sg')"
    by (rule execute_with_compensation_stack)
next
  assume "execute_with_compensation h name inp ca cin sid sg hs = (r, sg', hs')"
  then show "\<forall>result cname. r = Inr result \<and> ca = Some cname \<and> cname \<noteq> []
               \<longrightarrow> execute_activity h name inp sid False hs = (Inr result, hs')
                   \<and> compensation_stack sg'
                       = compensation_stack sg @
                         [\<lparr>activity_name = cname,
                           input = inject_result_values
                                     (case cin of Some c \<Rightarrow> c | None \<Rightarrow> []) result,
                           step_id = sid\<rparr>]"
    by (auto simp: execute_with_compensation_def Let_def
             split: prod.splits sum.splits option.splits if_splits)
next
  assume fresh: "\<not> rollback_executed sg"
  have "rollback h sg hs = (fst (rollback h sg hs), fst (snd (rollback h sg hs)),
      snd (snd (rollback h sg hs)))"
    by simp
  from rollback_first(2) [OF fresh this]
  show "history (snd (snd (rollback h sg hs)))
          = history hs @ map (\<lambda>c. activity_request (activity_name c) (input c) True)
                           (rev (compensation_stack sg))"
    by (simp add: compensation_request_def [abs_def])
qed


theorem placeholder_resolution_witness:
  "map_of (inject_result_values [(''booking_id'', PStr ''{result.booking_id}'')]
             [(''booking_id'', PStr ''BK-book_car'')]) ''booking_id''
     = Some (PStr ''BK-book_car'')
   \<and> map_of (inject_result_values [(''ref'', PStr ''{result.missing}'')]
             [(''booking_id'', PStr ''BK-book_car'')]) ''ref''
     = Some (PStr ''{result.missing}'')
   \<and> compensation_stack (fst (snd (execute_with_compensation (trip_host trip_plan [])
         ''book_car'' [] (Some ''cancel_car'')
         (Some [(''booking_id'', PStr ''{result.booking_id}'')]) ''step_2'' trip_saga
         trip_start)))
     = compensation_stack trip_saga @
         [\<lparr>activity_name = ''cancel_car'',
           input = inject_result_values [(''booking_id'', PStr ''{result.booking_id}'')]
                     [(''booking_id'', PStr ''BK-book_car'')],
           step_id = ''step_2''\<rparr>]
   \<and> map ac_args (history (snd (snd (rollback (trip_host trip_plan []) trip_saga trip_start))))
     = [[PDict [(''booking_id'', PStr ''BK-2'')]], [PDict [(''booking_id'', PStr ''BK-1'')]]]"
proof -
  let ?ci = "[(''booking_id'', PStr ''{result.booking_id}'')]"
  let ?res = "[(''booking_id'', PStr ''BK-book_car'')]"
  let ?run = "execute_with_compensation (trip_host trip_plan []) ''book_car'' []
      (Some ''cancel_car'') (Some ?ci) ''step_2'' trip_saga trip_start"
  note present = placeholder_resolution [where ci = ?ci and key = "''booking_id''"
      and f = "''booking_id''" and result = ?res and h = "trip_host trip_plan []"
      and name = "''book_car''" and inp = "[]" and ca = "Some ''cancel_car''"
      and cin = "Some ?ci" and sid = "''step_2''" and sg = trip_saga and hs = trip_start
      and r = "fst ?run" and sg' = "fst (snd ?run)" and hs' = "snd (snd ?run)"]
  note absent = placeholder_resolution [where ci = "[(''ref'', PStr ''{result.missing}'')]"
      and key = "''ref''" and f = "''missing''" and result = ?res, THEN conjunct1]
  have h1: "distinct (map fst ?ci)
      \<and> map_of ?ci ''booking_id'' = Some (PStr (''{result.'' @ ''booking_id'' @ ''}''))
      \<and> CHR ''}'' \<notin> set ''booking_id'' \<and> \<not> sublist ''{result.'' ''booking_id''"
    by code_simp
  have h2: "distinct (map fst [(''ref'', PStr ''{result.missing}'')])
      \<and> map_of [(''ref'', PStr ''{result.missing}'')] ''ref''
          = Some (PStr (''{result.'' @ ''missing'' @ ''}''))
      \<and> CHR ''}'' \<notin> set ''missing'' \<and> \<not> sublist ''{result.'' ''missing''"
    by code_simp
  have h3: "?run = (fst ?run, fst (snd ?run), snd (snd ?run))"
    by simp
  have h4: "fst ?run = Inr ?res"
    by code_simp
  have h5: "\<not> rollback_executed trip_saga"
    by (simp add: trip_saga_def)
  have c1: "map_of (inject_result_values ?ci ?res) ''booking_id'' = Some (PStr ''BK-book_car'')"
    using present [THEN conjunct1, THEN mp, OF h1] by simp
  have c2: "map_of (inject_result_values [(''ref'', PStr ''{result.missing}'')] ?res) ''ref''
      = Some (PStr ''{result.missing}'')"
    using absent [THEN mp, OF h2] by simp
  have c3: "compensation_stack (fst (snd ?run))
      = compensation_stack trip_saga @
         [\<lparr>activity_name = ''cancel_car'', input = inject_result_values ?ci ?res,
           step_id = ''step_2''\<rparr>]"
    using present [THEN conjunct2, THEN conjunct1, THEN mp, OF h3] h4 by simp
  have "history (snd (snd (rollback (trip_host trip_plan []) trip_saga trip_start)))
      = history trip_start @ map (\<lambda>c. activity_request (activity_name c) (input c) True)
                           (rev (compensation_stack trip_saga))"
    using present [THEN conjunct2, THEN conjunct2, THEN mp, OF h5] .
  then have c4: "map ac_args
      (history (snd (snd (rollback (trip_host trip_plan []) trip_saga trip_start))))
     = [[PDict [(''booking_id'', PStr ''BK-2'')]], [PDict [(''booking_id'', PStr ''BK-1'')]]]"
    by (simp add: trip_start_def trip_saga_def activity_request_def)
  from c1 c2 c3 c4 show ?thesis
    by simp
qed

section \<open>Derived state and replay\<close>

text \<open>
  The four fields that \<^verbatim>\<open>_append_event\<close> updates stay equal to their replayed values
  across an append.
\<close>

lemma replay_snoc: "replay (es @ [e]) = update_derived_state (replay es) e"
  by (simp add: replay_def)

lemma append_event_replayed:
  assumes "goal s = goal (replay (events s))" and "user_id s = user_id (replay (events s))"
    and "plan_id s = plan_id (replay (events s))"
    and "plan_steps s = plan_steps (replay (events s))"
  shows "goal (append_event s e) = goal (replay (events (append_event s e)))"
    and "user_id (append_event s e) = user_id (replay (events (append_event s e)))"
    and "plan_id (append_event s e) = plan_id (replay (events (append_event s e)))"
    and "plan_steps (append_event s e) = plan_steps (replay (events (append_event s e)))"
  using assms
  by (cases e; simp add: append_event_events replay_snoc;
      simp add: append_event_def check_threshold_def)+

text \<open>
  Claim C2. The specification asks that every field of the derived state, the step
  results and the failed step among them, be the fold of the state update over the event
  log after each append. The state update of \<^verbatim>\<open>_append_event\<close> handles \<^verbatim>\<open>GoalReceived\<close> and
  \<^verbatim>\<open>PlanGenerated\<close> only; \<^verbatim>\<open>_execute_plan\<close> assigns \<^verbatim>\<open>step_results\<close> and \<^verbatim>\<open>failed_step_id\<close>
  directly. After the successful run of the trip plan the workflow holds three step
  results where the replay of its event log holds none, and after the run whose third
  step fails it holds the failed step where the replay holds the empty string.
\<close>

theorem derived_state_not_replayed:
  "map fst (step_results (fst (snd (trip_run trip_plan []))))
     = [''step_0'', ''step_1'', ''step_2'']
   \<and> step_results (replay (events (fst (snd (trip_run trip_plan []))))) = []
   \<and> failed_step_id (fst (snd (trip_run trip_plan ''book_car''))) = ''step_2''
   \<and> failed_step_id (replay (events (fst (snd (trip_run trip_plan ''book_car''))))) = []"
  by code_simp

section \<open>The continue-as-new threshold\<close>

lemma append_event_warnings:
  "threshold_warnings (append_event s e)
     = threshold_warnings s @
       (if MAX_HISTORY_SIZE s \<le> Suc (length (events s)) then [Suc (length (events s))] else [])"
  by (cases e) (simp_all add: append_event_def check_threshold_def)

lemma warned_append_event: "warned m s \<Longrightarrow> warned m (append_event s e)"
  by (auto simp: warned_def append_event_warnings append_event_events append_event_MAX)

lemma warned_init: "warned 1000 init"
  by (simp add: warned_def init_def)


lemma warned_update [simp]:
  "warned m (s\<lparr>saga := sg\<rparr>) = warned m s"
  "warned m (s\<lparr>step_results := sr\<rparr>) = warned m s"
  "warned m (s\<lparr>failed_step_id := fid\<rparr>) = warned m s"
  by (simp_all add: warned_def)

lemma execute_step_warned:
  "execute_step h wid idx step s hs = (r, s', hs') \<Longrightarrow> warned m s \<Longrightarrow> warned m s'"
  by (auto simp: execute_step_def Let_def warned_append_event
           split: option.splits prod.splits sum.splits exn.splits)

lemma execute_plan_loop_warned:
  "execute_plan_loop h wid idx steps s hs = (r, s', hs') \<Longrightarrow> warned m s \<Longrightarrow> warned m s'"
proof (induction steps arbitrary: idx s hs)
  case Nil
  then show ?case by simp
next
  case (Cons step steps)
  then show ?case
    by (auto split: prod.splits sum.splits dest: execute_step_warned [where m = m])
qed

lemma run_try_warned:
  "run_try h wid g uid ctx s hs = (r, s', hs') \<Longrightarrow> warned m s \<Longrightarrow> warned m s'"
  by (auto simp: run_try_def Let_def execute_plan_def handle_success_def warned_append_event
           split: option.splits prod.splits sum.splits
           dest: execute_plan_loop_warned [where m = m])

lemma run_warned:
  assumes "run h wid g uid ctx s hs = (r, s', hs')" and "warned m s"
  shows "warned m s'"
proof -
  obtain r1 s1 hs1 where t: "run_try h wid g uid ctx (s\<lparr>saga := new_saga\<rparr>) hs = (r1, s1, hs1)"
    by (metis prod_cases3)
  from run_try_warned [OF t] assms(2) have "warned m s1"
    by simp
  with assms(1) t show ?thesis
    by (auto simp: run_def handle_failure_def Let_def warned_append_event
             split: sum.splits prod.splits)
qed

lemma execute_step_events:
  "execute_step h wid idx step s hs = (Inr u, s', hs') \<Longrightarrow>
   length (events s') = length (events s) + 2"
  by (auto simp: execute_step_def Let_def append_event_events
           split: option.splits prod.splits sum.splits exn.splits)

lemma execute_plan_loop_events:
  "execute_plan_loop h wid idx steps s hs = (Inr u, s', hs') \<Longrightarrow>
   length (events s') = length (events s) + 2 * length steps"
proof (induction steps arbitrary: idx s hs)
  case Nil
  then show ?case by simp
next
  case (Cons step steps)
  then show ?case
    by (auto split: prod.splits sum.splits dest!: execute_step_events)
qed


lemma trip_step_succeeds:
  "\<exists>s' hs'. execute_step (trip_host p []) wid idx (trip_step ''book_flight'' c) s hs
     = (Inr (), s', hs')"
  by (simp add: execute_step_def execute_with_compensation_def execute_activity_def
        workflow_execute_activity_def trip_host_def trip_step_def step_input_of_def
        activity_request_def Let_def split: option.split)

lemma trip_loop_succeeds:
  "\<exists>s' hs'. execute_plan_loop (trip_host p []) wid idx
      (replicate n (trip_step ''book_flight'' c)) s hs = (Inr (), s', hs')"
proof (induction n arbitrary: idx s hs)
  case 0
  then show ?case by simp
next
  case (Suc n)
  obtain s1 hs1 where "execute_step (trip_host p []) wid idx (trip_step ''book_flight'' c) s hs
     = (Inr (), s1, hs1)"
    using trip_step_succeeds by blast
  with Suc [of "Suc idx" s1 hs1] show ?case
    by simp
qed

lemma trip_long_run:
  "\<exists>r s2 hs2. trip_run (long_plan n) [] = (Inr r, s2, hs2) \<and> length (events s2) = 2 * n + 3"
proof -
  let ?steps = "replicate n (trip_step ''book_flight'' ''cancel_flight'')"
  let ?sp = "append_event
      (append_event (init\<lparr>saga := new_saga\<rparr>)
         (GoalReceived ''wf-1'' ''book Paris trip'' ''user-1'' None))
      (PlanGenerated ''wf-1'' ''plan-3'' ?steps False None)"
  let ?hsp = "\<lparr>world = (),
      history = [cache_request ''book Paris trip'', plan_request ''book Paris trip'' []]\<rparr>"
  have ps: "plan_steps ?sp = ?steps"
    by (simp add: append_event_def check_threshold_def)
  have ev: "length (events ?sp) = 2"
    by (simp add: append_event_events init_def)
  obtain s3 hs3 where loop: "execute_plan_loop (trip_host (long_plan n) []) ''wf-1'' 0
      ?steps ?sp ?hsp = (Inr (), s3, hs3)"
    using trip_loop_succeeds by blast
  from execute_plan_loop_events [OF loop] ev have ev3: "length (events s3) = 2 * n + 2"
    by simp
  have "run_try (trip_host (long_plan n) []) ''wf-1'' ''book Paris trip'' ''user-1'' None
      (init\<lparr>saga := new_saga\<rparr>) trip_start
      = (Inr (fst (handle_success ''wf-1'' s3)), snd (handle_success ''wf-1'' s3), hs3)"
    using loop ps
    by (simp add: run_try_def check_semantic_cache_def generate_plan_with_llm_def
          workflow_execute_activity_def trip_host_def trip_start_def long_plan_def
          execute_plan_def Let_def split: prod.split)
  then have "trip_run (long_plan n) []
      = (Inr (fst (handle_success ''wf-1'' s3)), snd (handle_success ''wf-1'' s3), hs3)"
    by (simp add: trip_run_def run_def)
  moreover have "length (events (snd (handle_success ''wf-1'' s3))) = 2 * n + 3"
    using ev3 by (simp add: handle_success_def Let_def append_event_events)
  ultimately show ?thesis
    by blast
qed

lemma filter_threshold:
  assumes "0 < m" and "m \<le> k"
  shows "filter (\<lambda>n. m \<le> n) [1..<Suc k] = [m..<Suc k]"
proof -
  from assms obtain d where d: "Suc k = m + d"
    using le_Suc_ex [of m "Suc k"] by auto
  from assms(1) have "[1..<m + d] = [1..<m] @ [m..<m + d]"
    by (intro upt_add_eq_append) simp
  with d have "[1..<Suc k] = [1..<m] @ [m..<Suc k]"
    by simp
  moreover have "filter (\<lambda>n. m \<le> n) [1..<m] = []"
    by (auto simp: filter_empty_conv)
  moreover have "filter (\<lambda>n. m \<le> n) [m..<Suc k] = [m..<Suc k]"
    by (auto simp: filter_id_conv)
  ultimately show ?thesis
    by simp
qed

text \<open>
  Claim C4. The specification asks that the checkpoint signal fire exactly once, at the
  append that reaches the threshold of 1000 events. The workflow only logs a warning
  there, and the test is made again at every append: the successful run of a plan of 500
  steps appends 1003 events and logs the warning at the appends number 1000, 1001, 1002
  and 1003.
\<close>

theorem threshold_warning_repeats:
  "threshold_warnings (fst (snd (trip_run (long_plan 500) []))) = [1000, 1001, 1002, 1003]"
proof -
  obtain r s2 hs2 where run: "trip_run (long_plan 500) [] = (Inr r, s2, hs2)"
    and len: "length (events s2) = 2 * 500 + 3"
    using trip_long_run by blast
  from run have "warned 1000 s2"
    unfolding trip_run_def by (rule run_warned) (rule warned_init)
  then have "threshold_warnings s2
      = filter (\<lambda>n. 1000 \<le> n) [1..<Suc (length (events s2))]"
    by (simp only: warned_def)
  also have "\<dots> = [1000..<Suc (length (events s2))]"
    by (rule filter_threshold) (simp_all add: len)
  also have "\<dots> = [1000, 1001, 1002, 1003]"
    by (simp add: len)
  finally show ?thesis
    using run by simp
qed

end
